theory Spec2Isabelle
  imports Main "HOL-Library.Char_ord" "HOL-Library.List_Lexorder" "HOL-Library.Sublist"
begin

section \<open>The export table of flatpak (common/flatpak-exports.c)\<close>

text \<open>
  The C file keeps a hash table from canonical paths to export modes, fills it by
  following host symlinks, turns it into bubblewrap arguments and answers visibility
  queries. The embedding below follows the file function by function. Strings are HOL
  strings (lists of bytes), compared the way \<^verbatim>\<open>strcmp\<close> compares them
  (lexicographically on the byte values).
\<close>

subsection \<open>The host: what the C code asks of the operating system\<close>

datatype file_type = S_IFDIR | S_IFREG | S_IFLNK | S_IFSOCK | S_IFOTHER

text \<open>
  \<open>lstat\<close> is \<^verbatim>\<open>lstat(2)\<close> reduced to the file type (\<open>None\<close> when the call fails),
  \<open>g_file_test_is_dir\<close> is \<^verbatim>\<open>g_file_test (p, G_FILE_TEST_IS_DIR)\<close> (it follows
  symlinks), and \<open>g_get_current_dir\<close> is the working directory against which a
  relative name is made absolute.

  Modelled from the spec: \<^verbatim>\<open>flatpak_resolve_link\<close> is defined in flatpak-utils.c.
  The spec lists it among the primitives the code consumes, "readLink(path) -> target
  string | failure", which "resolves a single symlink to its target string". It is a
  field of the host; \<open>None\<close> is the C \<^verbatim>\<open>NULL\<close>.
\<close>

record host =
  lstat :: "string \<Rightarrow> file_type option"
  flatpak_resolve_link :: "string \<Rightarrow> string option"
  g_file_test_is_dir :: "string \<Rightarrow> bool"
  g_get_current_dir :: string

subsection \<open>String helpers of GLib and of flatpak-utils.c\<close>

definition is_slash :: "char \<Rightarrow> bool" where
  "is_slash c = (c = CHR ''/'')"

text \<open>Splitting at a delimiter; the result always has at least one piece.\<close>

fun split_on :: "char \<Rightarrow> string \<Rightarrow> string list" where
  "split_on c [] = [[]]"
| "split_on c (x # xs) =
     (if x = c then [] # split_on c xs
      else (case split_on c xs of
              [] \<Rightarrow> [[x]]
            | w # ws \<Rightarrow> (x # w) # ws))"

text \<open>
  \<^verbatim>\<open>g_strsplit (s, "/", -1)\<close>: GLib documents that splitting the empty string gives
  the empty vector, not a vector holding one empty string.
\<close>

definition g_strsplit :: "string \<Rightarrow> string list" where
  "g_strsplit s = (if s = [] then [] else split_on CHR ''/'' s)"

definition g_path_is_absolute :: "string \<Rightarrow> bool" where
  "g_path_is_absolute p = (case p of [] \<Rightarrow> False | c # _ \<Rightarrow> is_slash c)"

text \<open>
  \<^verbatim>\<open>g_path_get_dirname\<close>: everything before the last slash, without the slashes
  that end it, but never less than the first character; \<^verbatim>\<open>"."\<close> when the name has
  no slash.
\<close>

definition g_path_get_dirname :: "string \<Rightarrow> string" where
  "g_path_get_dirname f =
     (if \<not> list_ex is_slash f then ''.''
      else (let pre = rev (dropWhile (\<lambda>c. \<not> is_slash c) (rev f));
                stripped = rev (dropWhile is_slash (rev pre))
            in if stripped = [] then take 1 f else stripped))"

text \<open>
  \<^verbatim>\<open>g_build_filename (a, b, NULL)\<close> for two elements: empty elements are ignored,
  the leading slashes of the first element and the trailing slashes of the last one are
  kept, and one slash joins the two stripped elements.
\<close>

definition strip_slashes :: "string \<Rightarrow> string" where
  "strip_slashes s = rev (dropWhile is_slash (rev (dropWhile is_slash s)))"

definition g_build_filename :: "string \<Rightarrow> string \<Rightarrow> string" where
  "g_build_filename a b =
     (if a = [] then b
      else if b = [] then a
      else takeWhile is_slash a @ strip_slashes a
           @ (if strip_slashes a \<noteq> [] \<and> strip_slashes b \<noteq> [] then ''/'' else [])
           @ strip_slashes b @ takeWhile is_slash (rev b))"

text \<open>
  Modelled from the spec: \<^verbatim>\<open>flatpak_has_path_prefix (str, prefix)\<close> is defined in
  flatpak-utils.c. The spec speaks of a path being "under" a prefix and of an entry
  "whose path is a prefix of (or equal to) the candidate": the path elements of
  \<open>prefix\<close> are an initial segment of the path elements of \<open>str\<close>, redundant slashes
  being of no account.
\<close>

definition path_elements :: "string \<Rightarrow> string list" where
  "path_elements s = filter (\<lambda>w. w \<noteq> []) (split_on CHR ''/'' s)"

definition flatpak_has_path_prefix :: "string \<Rightarrow> string \<Rightarrow> bool" where
  "flatpak_has_path_prefix str pre = prefix (path_elements pre) (path_elements str)"

text \<open>
  Modelled from the spec: \<^verbatim>\<open>flatpak_canonicalize_filename\<close> is defined in
  flatpak-utils.c. The spec: "canonicalize(path) -> absolute path string, resolving
  \<^verbatim>\<open>.\<close>/\<^verbatim>\<open>..\<close>/redundant separators but never the final path component"; no
  symlink is read. A relative name is taken below the working directory.
\<close>

definition canon_step :: "string list \<Rightarrow> string \<Rightarrow> string list" where
  "canon_step acc w =
     (if w = [] \<or> w = ''.'' then acc
      else if w = ''..'' then butlast acc
      else acc @ [w])"

definition join_path :: "string list \<Rightarrow> string" where
  "join_path ws = (if ws = [] then ''/'' else concat (map (\<lambda>w. CHR ''/'' # w) ws))"

definition flatpak_canonicalize_filename :: "host \<Rightarrow> string \<Rightarrow> string" where
  "flatpak_canonicalize_filename h p =
     (let full = (if g_path_is_absolute p then p else g_get_current_dir h @ ''/'' @ p)
      in join_path (foldl canon_step [] (split_on CHR ''/'' full)))"

subsection \<open>Modes, entries and the table\<close>

text \<open>
  The mode of an entry is a C \<^verbatim>\<open>gint\<close>. Only comparisons are made on it, so an
  unbounded integer carries it; \<open>FAKE_MODE_SYMLINK\<close> is \<^verbatim>\<open>G_MAXINT\<close>.
\<close>

definition FAKE_MODE_DIR :: int where "FAKE_MODE_DIR = - 1"
definition FAKE_MODE_TMPFS :: int where "FAKE_MODE_TMPFS = 0"
definition FAKE_MODE_SYMLINK :: int where "FAKE_MODE_SYMLINK = 2147483647"

text \<open>
  Modelled from the spec: the enumeration \<^verbatim>\<open>FlatpakFilesystemMode\<close> is declared in
  flatpak-exports.h. The spec orders the modes
  Dir < Tmpfs < ReadOnlyBind < ReadWriteBind < Symlink, and the C code treats the value 0
  as "no mode" (tmpfs, no host exposure); the two bind modes are the next two integers.
\<close>

definition FLATPAK_FILESYSTEM_MODE_READ_ONLY :: int where
  "FLATPAK_FILESYSTEM_MODE_READ_ONLY = 1"
definition FLATPAK_FILESYSTEM_MODE_READ_WRITE :: int where
  "FLATPAK_FILESYSTEM_MODE_READ_WRITE = 2"

record ExportedPath =
  path :: string
  mode :: int

text \<open>
  The \<^verbatim>\<open>GHashTable\<close> is an association list holding each key once;
  \<^verbatim>\<open>g_hash_table_lookup\<close> is \<open>map_of\<close>. The order of the list is the unspecified
  iteration order of the hash table: every reader sorts before it looks.
\<close>

record FlatpakExports =
  hash :: "(string \<times> ExportedPath) list"
  host_fs :: int

definition flatpak_exports_new :: FlatpakExports where
  "flatpak_exports_new = \<lparr>hash = [], host_fs = 0\<rparr>"

fun g_hash_table_replace ::
  "(string \<times> ExportedPath) list \<Rightarrow> string \<Rightarrow> ExportedPath \<Rightarrow> (string \<times> ExportedPath) list" where
  "g_hash_table_replace [] k v = [(k, v)]"
| "g_hash_table_replace ((k', v') # kvs) k v =
     (if k' = k then (k, v) # kvs else (k', v') # g_hash_table_replace kvs k v)"

text \<open>The keys as an array, sorted with \<^verbatim>\<open>flatpak_strcmp0_ptr\<close>.\<close>

definition sorted_keys :: "(string \<times> ExportedPath) list \<Rightarrow> string list" where
  "sorted_keys tbl = sort (map fst tbl)"

subsection \<open>make\_relative\<close>

text \<open>
  The outer loop of \<^verbatim>\<open>make_relative\<close>: skip slashes, append \<^verbatim>\<open>"../"\<close> if an
  element follows, skip the element.
\<close>

function make_relative_loop :: "string \<Rightarrow> string \<Rightarrow> string" where
  "make_relative_loop base s =
     (if base = [] then s
      else (let b1 = dropWhile is_slash base;
                s1 = (if b1 \<noteq> [] then s @ ''../'' else s);
                b2 = dropWhile (\<lambda>c. \<not> is_slash c) b1
            in make_relative_loop b2 s1))"
  by pat_completeness auto
termination
proof (relation "measure (\<lambda>(base, s). length base)")
  show "wf (measure (\<lambda>(base, s). length base))" by simp
next
  fix base s :: string and b1 s1 b2
  assume ne: "base \<noteq> []" and b1: "b1 = dropWhile is_slash base"
    and b2: "b2 = dropWhile (\<lambda>c. \<not> is_slash c) b1"
  obtain c cs where base: "base = c # cs" using ne by (cases base) auto
  have "length b2 < length base"
  proof (cases "is_slash c")
    case True
    then have "length b1 \<le> length cs"
      using b1 base by (simp add: length_dropWhile_le)
    moreover have "length b2 \<le> length b1"
      using b2 by (simp add: length_dropWhile_le)
    ultimately show ?thesis using base by simp
  next
    case False
    then have "b1 = c # cs" using b1 base by simp
    then have "b2 = dropWhile (\<lambda>c. \<not> is_slash c) cs" using b2 False by simp
    then have "length b2 \<le> length cs" by (simp add: length_dropWhile_le)
    then show ?thesis using base by simp
  qed
  then show "((b2, s1), (base, s)) \<in> measure (\<lambda>(base, s). length base)" by simp
qed

definition make_relative :: "string \<Rightarrow> string \<Rightarrow> string" where
  "make_relative base p = make_relative_loop base [] @ dropWhile is_slash p"

subsection \<open>The two "is mapped" tests\<close>

text \<open>
  Both loops run over the sorted keys and overwrite \<open>is_mapped\<close> at every key that
  matches; the accumulator of the fold is that variable. The keys passed by the callers
  are the keys of the table, so the lookup finds an entry; a key without entry is passed
  over.
\<close>

definition path_parent_is_mapped ::
  "string list \<Rightarrow> (string \<times> ExportedPath) list \<Rightarrow> string \<Rightarrow> bool" where
  "path_parent_is_mapped keys hash_table p =
     foldl (\<lambda>is_mapped mounted_path.
              (case map_of hash_table mounted_path of
                 None \<Rightarrow> is_mapped
               | Some ep \<Rightarrow>
                   if flatpak_has_path_prefix p mounted_path \<and> p \<noteq> mounted_path
                   then (if mode ep = FAKE_MODE_DIR then is_mapped
                         else mode ep \<noteq> FAKE_MODE_TMPFS)
                   else is_mapped))
           False keys"

definition path_is_mapped ::
  "string list \<Rightarrow> (string \<times> ExportedPath) list \<Rightarrow> string \<Rightarrow> bool" where
  "path_is_mapped keys hash_table p =
     foldl (\<lambda>is_mapped mounted_path.
              (case map_of hash_table mounted_path of
                 None \<Rightarrow> is_mapped
               | Some ep \<Rightarrow>
                   if flatpak_has_path_prefix p mounted_path
                   then (if mode ep = FAKE_MODE_DIR then is_mapped
                         else if mode ep = FAKE_MODE_SYMLINK then p = mounted_path
                         else mode ep \<noteq> FAKE_MODE_TMPFS)
                   else is_mapped))
           False keys"

definition path_is_dir :: "host \<Rightarrow> string \<Rightarrow> bool" where
  "path_is_dir h p = (case lstat h p of None \<Rightarrow> False | Some t \<Rightarrow> t = S_IFDIR)"

definition path_is_symlink :: "host \<Rightarrow> string \<Rightarrow> bool" where
  "path_is_symlink h p = (case lstat h p of None \<Rightarrow> False | Some t \<Rightarrow> t = S_IFLNK)"

subsection \<open>Mount plan: flatpak\_exports\_append\_bwrap\_args\<close>

text \<open>
  The arguments appended for one entry of the sorted list. \<open>keys\<close> are the sorted keys
  and \<open>hash_table\<close> the table, as handed to \<open>path_parent_is_mapped\<close>.
\<close>

definition entry_args ::
  "host \<Rightarrow> string list \<Rightarrow> (string \<times> ExportedPath) list \<Rightarrow> ExportedPath \<Rightarrow> string list" where
  "entry_args h keys hash_table ep =
     (if mode ep = FAKE_MODE_SYMLINK then
        (if \<not> path_parent_is_mapped keys hash_table (path ep) then
           (case flatpak_resolve_link h (path ep) of
              None \<Rightarrow> []
            | Some resolved \<Rightarrow>
                [''--symlink'',
                 make_relative (g_path_get_dirname (path ep)) resolved,
                 path ep])
         else [])
      else if mode ep = FAKE_MODE_TMPFS then
        (if path_is_dir h (path ep) then
           (if \<not> path_parent_is_mapped keys hash_table (path ep)
            then [''--dir'', path ep]
            else [''--tmpfs'', path ep])
         else [])
      else if mode ep = FAKE_MODE_DIR then
        (if path_is_dir h (path ep) then [''--dir'', path ep] else [])
      else
        [if mode ep = FLATPAK_FILESYSTEM_MODE_READ_ONLY then ''--ro-bind'' else ''--bind'',
         path ep, path ep])"

definition host_fs_args :: "host \<Rightarrow> FlatpakExports \<Rightarrow> string list" where
  "host_fs_args h exports =
     (if host_fs exports \<noteq> 0 then
        (if g_file_test_is_dir h ''/usr'' then
           [if host_fs exports = FLATPAK_FILESYSTEM_MODE_READ_ONLY then ''--ro-bind'' else ''--bind'',
            ''/usr'', ''/run/host/usr'']
         else [])
        @ (if g_file_test_is_dir h ''/etc'' then
             [if host_fs exports = FLATPAK_FILESYSTEM_MODE_READ_ONLY then ''--ro-bind'' else ''--bind'',
              ''/etc'', ''/run/host/etc'']
           else [])
      else [])"

text \<open>
  \<open>bwrap\<close> is the argument vector built so far; the function returns it with the
  arguments of the table appended. \<open>eps\<close> are the values sorted with
  \<^verbatim>\<open>compare_eps\<close>, that is by their \<open>path\<close> field.
\<close>

definition flatpak_exports_append_bwrap_args ::
  "host \<Rightarrow> FlatpakExports \<Rightarrow> string list \<Rightarrow> string list" where
  "flatpak_exports_append_bwrap_args h exports bwrap =
     (let keys = sorted_keys (hash exports);
          eps = sort_key path (map snd (hash exports))
      in foldl (\<lambda>args ep. args @ entry_args h keys (hash exports) ep) bwrap eps
         @ host_fs_args h exports)"

subsection \<open>Visibility: flatpak\_exports\_path\_is\_visible\<close>

text \<open>
  The \<^verbatim>\<open>for\<close> loop over the parts either returns a boolean or returns the result
  of the function itself on the spliced path. \<open>visible_walk\<close> is the loop;
  \<open>Follow p2\<close> stands for the pending call on \<open>p2\<close>. \<open>path_builder\<close> is the
  prefix built so far and the list holds \<^verbatim>\<open>parts[i..]\<close>.
\<close>

datatype walk_result = Return bool | Follow string

fun visible_walk ::
  "host \<Rightarrow> string list \<Rightarrow> (string \<times> ExportedPath) list \<Rightarrow> string \<Rightarrow> string list \<Rightarrow> walk_result" where
  "visible_walk h keys hash_table path_builder [] = Return True"
| "visible_walk h keys hash_table path_builder (part # rest) =
     (let pb = path_builder @ ''/'' @ part in
      if path_is_mapped keys hash_table pb then
        (case lstat h pb of
           None \<Rightarrow> Return False
         | Some st \<Rightarrow>
             if st = S_IFLNK then
               (case flatpak_resolve_link h pb of
                  None \<Rightarrow> Return False
                | Some resolved \<Rightarrow> Follow (foldl (\<lambda>s pj. s @ ''/'' @ pj) resolved rest))
             else visible_walk h keys hash_table pb rest)
      else if rest = [] then Return False
      else visible_walk h keys hash_table pb rest)"

text \<open>
  The C function calls itself with no bound on the depth, so the model is a partial
  function: \<open>None\<close> is a call that never returns.
\<close>

partial_function (option) flatpak_exports_path_is_visible ::
  "host \<Rightarrow> FlatpakExports \<Rightarrow> string \<Rightarrow> bool option" where
  "flatpak_exports_path_is_visible h exports p =
     (case visible_walk h (sorted_keys (hash exports)) (hash exports) []
             (g_strsplit (tl (flatpak_canonicalize_filename h p))) of
        Return b \<Rightarrow> Some b
      | Follow p2 \<Rightarrow> flatpak_exports_path_is_visible h exports p2)"

declare flatpak_exports_path_is_visible.simps [code]

subsection \<open>Filling the table\<close>

definition never_export_as_symlink :: "string \<Rightarrow> bool" where
  "never_export_as_symlink p = (p = ''/tmp'')"

definition do_export_path :: "FlatpakExports \<Rightarrow> string \<Rightarrow> int \<Rightarrow> FlatpakExports" where
  "do_export_path exports p m =
     (let ep = \<lparr>path = p,
                mode = (case map_of (hash exports) p of
                          Some old_ep \<Rightarrow> max (mode old_ep) m
                        | None \<Rightarrow> m)\<rparr>
      in exports\<lparr>hash := g_hash_table_replace (hash exports) p ep\<rparr>)"

definition dont_export_in :: "string list" where
  "dont_export_in =
     [''/lib'', ''/lib32'', ''/lib64'', ''/bin'', ''/sbin'', ''/usr'', ''/etc'', ''/app'', ''/dev'']"

text \<open>
  The \<^verbatim>\<open>do ... while\<close> loop of \<^verbatim>\<open>_exports_path_expose\<close> cuts the canonical
  name at every slash after the first character, in order, and looks at the whole name
  last. \<open>path_cuts\<close> lists what the loop sees: the truncated name and what follows the
  slash (\<^verbatim>\<open>slash + 1\<close>), \<open>None\<close> once \<^verbatim>\<open>slash\<close> is \<^verbatim>\<open>NULL\<close>.
\<close>

definition path_cuts :: "string \<Rightarrow> (string \<times> string option) list" where
  "path_cuts canonical =
     map (\<lambda>i. (take i canonical, Some (drop (Suc i) canonical)))
         (filter (\<lambda>i. is_slash (canonical ! i)) [1..<length canonical])
     @ [(canonical, None)]"

text \<open>The first cut that is a symlink on the host and may be exported as one.\<close>

definition first_symlink_cut :: "host \<Rightarrow> string \<Rightarrow> (string \<times> string option) option" where
  "first_symlink_cut h canonical =
     find (\<lambda>(q, following). path_is_symlink h q \<and> \<not> never_export_as_symlink q)
          (path_cuts canonical)"

text \<open>
  \<^verbatim>\<open>_exports_path_expose\<close> returns its boolean together with the table as the call
  leaves it. The recursive call is made on the table as it is, and whatever it did to
  the table stays, also when it fails.
\<close>

function exports_path_expose ::
  "host \<Rightarrow> FlatpakExports \<Rightarrow> int \<Rightarrow> string \<Rightarrow> int \<Rightarrow> bool \<times> FlatpakExports" where
  "exports_path_expose h exports m p level =
     (if level > 40 then (False, exports)
      else if \<not> g_path_is_absolute p then (False, exports)
      else (case lstat h p of
              None \<Rightarrow> (False, exports)
            | Some st \<Rightarrow>
                if \<not> (st = S_IFDIR \<or> st = S_IFREG \<or> st = S_IFLNK \<or> st = S_IFSOCK)
                then (False, exports)
                else if list_ex (flatpak_has_path_prefix (flatpak_canonicalize_filename h p))
                          dont_export_in
                then (False, exports)
                else (case first_symlink_cut h (flatpak_canonicalize_filename h p) of
                        None \<Rightarrow>
                          (True, do_export_path exports (flatpak_canonicalize_filename h p) m)
                      | Some (q, following) \<Rightarrow>
                          (case flatpak_resolve_link h q of
                             None \<Rightarrow> (False, exports)
                           | Some resolved \<Rightarrow>
                               (case exports_path_expose h exports m
                                       (case following of
                                          Some r \<Rightarrow> g_build_filename resolved r
                                        | None \<Rightarrow> resolved)
                                       (level + 1) of
                                  (ok, exports') \<Rightarrow>
                                    if ok then (True, do_export_path exports' q FAKE_MODE_SYMLINK)
                                    else (False, exports'))))))"
  by pat_completeness auto
termination
  by (relation "measure (\<lambda>(h, exports, m, p, level). nat (41 - level))") auto

declare exports_path_expose.simps [simp del]

subsection \<open>The public operations\<close>

text \<open>The public functions return nothing; the model returns the table.\<close>

definition flatpak_exports_add_path_expose :: "host \<Rightarrow> FlatpakExports \<Rightarrow> int \<Rightarrow> string \<Rightarrow> FlatpakExports" where
  "flatpak_exports_add_path_expose h exports m p = snd (exports_path_expose h exports m p 0)"

definition flatpak_exports_add_path_tmpfs :: "host \<Rightarrow> FlatpakExports \<Rightarrow> string \<Rightarrow> FlatpakExports" where
  "flatpak_exports_add_path_tmpfs h exports p =
     snd (exports_path_expose h exports FAKE_MODE_TMPFS p 0)"

definition flatpak_exports_add_path_expose_or_hide ::
  "host \<Rightarrow> FlatpakExports \<Rightarrow> int \<Rightarrow> string \<Rightarrow> FlatpakExports" where
  "flatpak_exports_add_path_expose_or_hide h exports m p =
     (if m = 0 then flatpak_exports_add_path_tmpfs h exports p
      else flatpak_exports_add_path_expose h exports m p)"

definition flatpak_exports_add_path_dir :: "host \<Rightarrow> FlatpakExports \<Rightarrow> string \<Rightarrow> FlatpakExports" where
  "flatpak_exports_add_path_dir h exports p =
     snd (exports_path_expose h exports FAKE_MODE_DIR p 0)"

definition flatpak_exports_add_home_expose :: "FlatpakExports \<Rightarrow> int \<Rightarrow> FlatpakExports" where
  "flatpak_exports_add_home_expose exports m = exports\<lparr>host_fs := m\<rparr>"

subsection \<open>The two predicates as the specification words them\<close>

text \<open>
  These two definitions are not taken from the C code. They follow the sentences of the
  specification, to be compared with \<open>path_parent_is_mapped\<close> and \<open>path_is_mapped\<close>.
  Predicate A: "true iff some entry whose path is a strict prefix of the candidate has
  mode other than Dir and other than Tmpfs". Predicate B: "true iff some entry whose path
  is a prefix of (or equal to) the candidate has mode other than Dir", where "a Symlink
  entry counts only when the paths are exactly equal".
\<close>

definition spec_predicate_A :: "(string \<times> ExportedPath) list \<Rightarrow> string \<Rightarrow> bool" where
  "spec_predicate_A tbl p =
     list_ex (\<lambda>(k, ep). flatpak_has_path_prefix p k \<and> k \<noteq> p
                \<and> mode ep \<noteq> FAKE_MODE_DIR \<and> mode ep \<noteq> FAKE_MODE_TMPFS) tbl"

definition spec_predicate_B :: "(string \<times> ExportedPath) list \<Rightarrow> string \<Rightarrow> bool" where
  "spec_predicate_B tbl p =
     list_ex (\<lambda>(k, ep). flatpak_has_path_prefix p k \<and> mode ep \<noteq> FAKE_MODE_DIR
                \<and> (if mode ep = FAKE_MODE_SYMLINK then k = p else True)) tbl"

subsection \<open>Canonical names\<close>

text \<open>
  The elements of a canonical name are not empty, are neither \<^verbatim>\<open>.\<close> nor
  \<^verbatim>\<open>..\<close> and hold no slash, and the name is its elements, each after a slash.
  These are the names that \<open>flatpak_canonicalize_filename\<close> leaves as they are
  (\<open>canonical_name_canonicalize\<close> below).
\<close>

definition clean_elements :: "string list \<Rightarrow> bool" where
  "clean_elements ws =
     list_all (\<lambda>w. w \<noteq> [] \<and> w \<noteq> ''.'' \<and> w \<noteq> ''..'' \<and> \<not> list_ex is_slash w) ws"

definition canonical_name :: "string \<Rightarrow> bool" where
  "canonical_name k = (clean_elements (path_elements k) \<and> k = join_path (path_elements k))"

subsection \<open>Sequences of calls\<close>

text \<open>
  A caller fills a table by a sequence of calls of the public functions. A call is
  recorded with the host as it is when the call is made, so the host may change between
  two calls.
\<close>

datatype request =
    AddPathExpose int string
  | AddPathTmpfs string
  | AddPathExposeOrHide int string
  | AddPathDir string
  | AddHomeExpose int

fun apply_request :: "host \<Rightarrow> FlatpakExports \<Rightarrow> request \<Rightarrow> FlatpakExports" where
  "apply_request h exports (AddPathExpose m p) = flatpak_exports_add_path_expose h exports m p"
| "apply_request h exports (AddPathTmpfs p) = flatpak_exports_add_path_tmpfs h exports p"
| "apply_request h exports (AddPathExposeOrHide m p) =
     flatpak_exports_add_path_expose_or_hide h exports m p"
| "apply_request h exports (AddPathDir p) = flatpak_exports_add_path_dir h exports p"
| "apply_request h exports (AddHomeExpose m) = flatpak_exports_add_home_expose exports m"

definition run_requests :: "FlatpakExports \<Rightarrow> (host \<times> request) list \<Rightarrow> FlatpakExports" where
  "run_requests exports rs = foldl (\<lambda>e (h, r). apply_request h e r) exports rs"

text \<open>
  The mode argument of the public functions has the type \<^verbatim>\<open>FlatpakFilesystemMode\<close>;
  \<^verbatim>\<open>G_MAXINT\<close> is not one of its values. The predicate holds of a call that
  passes it all the same.
\<close>

fun passes_fake_symlink :: "request \<Rightarrow> bool" where
  "passes_fake_symlink (AddPathExpose m p) = (m = FAKE_MODE_SYMLINK)"
| "passes_fake_symlink (AddPathExposeOrHide m p) = (m = FAKE_MODE_SYMLINK)"
| "passes_fake_symlink _ = False"

text \<open>The table has an entry for \<^verbatim>\<open>/tmp\<close> and its mode is \<open>FAKE_MODE_SYMLINK\<close>.\<close>

definition tmp_is_symlink_export :: "FlatpakExports \<Rightarrow> bool" where
  "tmp_is_symlink_export exports =
     (case map_of (hash exports) ''/tmp'' of
        None \<Rightarrow> False
      | Some ep \<Rightarrow> mode ep = FAKE_MODE_SYMLINK)"

subsection \<open>Hosts to run the functions on\<close>

text \<open>
  \<^verbatim>\<open>/a\<close> is a symlink to the directory \<^verbatim>\<open>/b\<close>, which holds the file
  \<^verbatim>\<open>c\<close>; the directory \<^verbatim>\<open>/d\<close> holds two symlinks that point at each other.
\<close>

definition demo_host :: host where
  "demo_host =
     \<lparr>lstat = map_of
        [(''/'', S_IFDIR), (''/a'', S_IFLNK), (''/b'', S_IFDIR), (''/b/c'', S_IFREG),
         (''/a/c'', S_IFREG), (''/d'', S_IFDIR), (''/d/x'', S_IFLNK), (''/d/y'', S_IFLNK),
         (''/home'', S_IFDIR), (''/home/u'', S_IFDIR), (''/home/u/priv'', S_IFDIR),
         (''/tmp'', S_IFDIR), (''/usr'', S_IFDIR),
         (''/usr/lib'', S_IFDIR), (''/usr/lib/foo'', S_IFREG)],
      flatpak_resolve_link = map_of
        [(''/a'', ''/b''), (''/d/x'', ''/d/y''), (''/d/y'', ''/d/x'')],
      g_file_test_is_dir = (\<lambda>p. p \<in> set [''/'', ''/a'', ''/b'', ''/d'', ''/home'', ''/home/u'',
                                         ''/home/u/priv'', ''/tmp'', ''/usr'', ''/usr/lib'']),
      g_get_current_dir = ''/''\<rparr>"

text \<open>A host on which \<^verbatim>\<open>/tmp\<close> is a symlink to the directory \<^verbatim>\<open>/var/tmp\<close>.\<close>

definition tmp_link_host :: host where
  "tmp_link_host =
     \<lparr>lstat = map_of
        [(''/'', S_IFDIR), (''/tmp'', S_IFLNK), (''/var'', S_IFDIR), (''/var/tmp'', S_IFDIR)],
      flatpak_resolve_link = map_of [(''/tmp'', ''/var/tmp'')],
      g_file_test_is_dir = (\<lambda>p. p \<in> set [''/'', ''/tmp'', ''/var'', ''/var/tmp'']),
      g_get_current_dir = ''/''\<rparr>"

text \<open>
  A host with symlinks at several depths: \<^verbatim>\<open>/a\<close> and \<^verbatim>\<open>/x/a\<close> point to the
  directory \<^verbatim>\<open>/b\<close>, \<^verbatim>\<open>/x/y/l\<close> points to the directory \<^verbatim>\<open>/x/z\<close>, and
  \<^verbatim>\<open>/tousr\<close> points to \<^verbatim>\<open>/usr\<close>, which is never exported.
\<close>

definition chase_host :: host where
  "chase_host =
     \<lparr>lstat = map_of
        [(''/'', S_IFDIR), (''/a'', S_IFLNK), (''/b'', S_IFDIR), (''/x'', S_IFDIR),
         (''/x/a'', S_IFLNK), (''/x/y'', S_IFDIR), (''/x/y/l'', S_IFLNK), (''/x/z'', S_IFDIR),
         (''/tousr'', S_IFLNK), (''/usr'', S_IFDIR)],
      flatpak_resolve_link = map_of
        [(''/a'', ''/b''), (''/x/a'', ''/b''), (''/x/y/l'', ''/x/z''), (''/tousr'', ''/usr'')],
      g_file_test_is_dir = (\<lambda>p. p \<in> set [''/'', ''/a'', ''/b'', ''/x'', ''/x/a'', ''/x/y'',
                                         ''/x/y/l'', ''/x/z'', ''/tousr'', ''/usr'']),
      g_get_current_dir = ''/''\<rparr>"

text \<open>The same machine at an earlier time, when \<^verbatim>\<open>/a\<close> was still a directory.\<close>

definition earlier_host :: host where
  "earlier_host =
     \<lparr>lstat = map_of [(''/'', S_IFDIR), (''/a'', S_IFDIR), (''/b'', S_IFDIR)],
      flatpak_resolve_link = map_of [],
      g_file_test_is_dir = (\<lambda>p. p \<in> set [''/'', ''/a'', ''/b'']),
      g_get_current_dir = ''/''\<rparr>"


section \<open>Properties\<close>

lemmas string_defs = is_slash_def g_strsplit_def g_path_is_absolute_def g_path_get_dirname_def
  strip_slashes_def g_build_filename_def path_elements_def flatpak_has_path_prefix_def
  canon_step_def join_path_def flatpak_canonicalize_filename_def

lemmas mode_defs = FAKE_MODE_DIR_def FAKE_MODE_TMPFS_def FAKE_MODE_SYMLINK_def
  FLATPAK_FILESYSTEM_MODE_READ_ONLY_def FLATPAK_FILESYSTEM_MODE_READ_WRITE_def

lemmas expose_defs = dont_export_in_def first_symlink_cut_def path_cuts_def path_is_symlink_def
  never_export_as_symlink_def do_export_path_def flatpak_exports_new_def

lemmas plan_defs = flatpak_exports_append_bwrap_args_def sorted_keys_def entry_args_def
  host_fs_args_def path_parent_is_mapped_def path_is_dir_def make_relative_def

lemma demo_host_sel:
  "lstat demo_host = map_of
        [(''/'', S_IFDIR), (''/a'', S_IFLNK), (''/b'', S_IFDIR), (''/b/c'', S_IFREG),
         (''/a/c'', S_IFREG), (''/d'', S_IFDIR), (''/d/x'', S_IFLNK), (''/d/y'', S_IFLNK),
         (''/home'', S_IFDIR), (''/home/u'', S_IFDIR), (''/home/u/priv'', S_IFDIR),
         (''/tmp'', S_IFDIR), (''/usr'', S_IFDIR),
         (''/usr/lib'', S_IFDIR), (''/usr/lib/foo'', S_IFREG)]"
  "flatpak_resolve_link demo_host = map_of
        [(''/a'', ''/b''), (''/d/x'', ''/d/y''), (''/d/y'', ''/d/x'')]"
  "g_get_current_dir demo_host = ''/''"
  by (simp_all add: demo_host_def)

lemma chase_host_sel:
  "lstat chase_host = map_of
        [(''/'', S_IFDIR), (''/a'', S_IFLNK), (''/b'', S_IFDIR), (''/x'', S_IFDIR),
         (''/x/a'', S_IFLNK), (''/x/y'', S_IFDIR), (''/x/y/l'', S_IFLNK), (''/x/z'', S_IFDIR),
         (''/tousr'', S_IFLNK), (''/usr'', S_IFDIR)]"
  "flatpak_resolve_link chase_host = map_of
        [(''/a'', ''/b''), (''/x/a'', ''/b''), (''/x/y/l'', ''/x/z''), (''/tousr'', ''/usr'')]"
  "g_get_current_dir chase_host = ''/''"
  by (simp_all add: chase_host_def)

lemma earlier_host_sel:
  "lstat earlier_host = map_of [(''/'', S_IFDIR), (''/a'', S_IFDIR), (''/b'', S_IFDIR)]"
  "flatpak_resolve_link earlier_host = map_of []"
  "g_get_current_dir earlier_host = ''/''"
  by (simp_all add: earlier_host_def)


lemma tmp_link_host_sel:
  "lstat tmp_link_host = map_of
        [(''/'', S_IFDIR), (''/tmp'', S_IFLNK), (''/var'', S_IFDIR), (''/var/tmp'', S_IFDIR)]"
  "flatpak_resolve_link tmp_link_host = map_of [(''/tmp'', ''/var/tmp'')]"
  "g_get_current_dir tmp_link_host = ''/''"
  by (simp_all add: tmp_link_host_def)

subsection \<open>The root is always visible\<close>

lemma canonicalize_root: "flatpak_canonicalize_filename h ''/'' = ''/''"
  by (simp add: string_defs)

text \<open>
  C10: \<^verbatim>\<open>flatpak_exports_path_is_visible\<close> answers true on \<^verbatim>\<open>"/"\<close> for every
  table, the empty one included, and every host: the canonical name \<^verbatim>\<open>"/"\<close> has no
  parts, the loop body never runs, and neither the table nor the host is looked at.
\<close>

theorem root_is_visible:
  "flatpak_exports_path_is_visible h exports ''/'' = Some True"
  by (subst flatpak_exports_path_is_visible.simps)
     (simp add: canonicalize_root g_strsplit_def)

subsection \<open>A symlink to a directory\<close>



subsection \<open>Facts about the table and about one call of the recursive function\<close>


lemma map_of_replace: "map_of (g_hash_table_replace kvs k v) = (map_of kvs)(k \<mapsto> v)"
  by (induction kvs k v rule: g_hash_table_replace.induct) auto

lemma lookup_do_export_path:
  "map_of (hash (do_export_path e p m)) k =
     (if k = p
      then Some \<lparr>path = p, mode = (case map_of (hash e) p of Some old_ep \<Rightarrow> max (mode old_ep) m | None \<Rightarrow> m)\<rparr>
      else map_of (hash e) k)"
  by (simp add: do_export_path_def map_of_replace)

lemma expose_cases [case_names fail direct chase]:
  obtains
    (fail) "exports_path_expose h e m p level = (False, e)"
  | (direct) "first_symlink_cut h (flatpak_canonicalize_filename h p) = None"
      "exports_path_expose h e m p level = (True, do_export_path e (flatpak_canonicalize_filename h p) m)"
  | (chase) st q following resolved where
      "\<not> 40 < level" "\<not> \<not> g_path_is_absolute p" "lstat h p = Some st"
      "\<not> \<not> (st = S_IFDIR \<or> st = S_IFREG \<or> st = S_IFLNK \<or> st = S_IFSOCK)"
      "\<not> list_ex (flatpak_has_path_prefix (flatpak_canonicalize_filename h p)) dont_export_in"
      "first_symlink_cut h (flatpak_canonicalize_filename h p) = Some (q, following)"
      "flatpak_resolve_link h q = Some resolved"
      "exports_path_expose h e m p level =
         (if fst (exports_path_expose h e m (case following of None \<Rightarrow> resolved | Some r \<Rightarrow> g_build_filename resolved r) (level + 1))
          then (True, do_export_path (snd (exports_path_expose h e m (case following of None \<Rightarrow> resolved | Some r \<Rightarrow> g_build_filename resolved r) (level + 1))) q FAKE_MODE_SYMLINK)
          else (False, snd (exports_path_expose h e m (case following of None \<Rightarrow> resolved | Some r \<Rightarrow> g_build_filename resolved r) (level + 1))))"
proof (cases "40 < level \<or> \<not> g_path_is_absolute p")
  case True
  then show ?thesis using fail by (auto simp: exports_path_expose.simps [of h e m p level])
next
  case guard: False
  show ?thesis
  proof (cases "lstat h p")
    case None
    then show ?thesis using fail guard by (simp add: exports_path_expose.simps [of h e m p level])
  next
    case (Some st)
    show ?thesis
    proof (cases "\<not> (st = S_IFDIR \<or> st = S_IFREG \<or> st = S_IFLNK \<or> st = S_IFSOCK)
        \<or> list_ex (flatpak_has_path_prefix (flatpak_canonicalize_filename h p)) dont_export_in")
      case True
      then show ?thesis using fail guard Some
        by (auto simp: exports_path_expose.simps [of h e m p level])
    next
      case ok: False
      show ?thesis
      proof (cases "first_symlink_cut h (flatpak_canonicalize_filename h p)")
        case None
        then show ?thesis using direct guard Some ok
          by (simp add: exports_path_expose.simps [of h e m p level])
      next
        case cut: (Some qf)
        obtain q following where qf: "qf = (q, following)" by (cases qf)
        show ?thesis
        proof (cases "flatpak_resolve_link h q")
          case None
          then show ?thesis using fail guard Some ok cut qf
            by (simp add: exports_path_expose.simps [of h e m p level])
        next
          case res: (Some resolved)
          show ?thesis
          proof (rule chase [of st q following resolved])
            show "exports_path_expose h e m p level =
         (if fst (exports_path_expose h e m (case following of None \<Rightarrow> resolved | Some r \<Rightarrow> g_build_filename resolved r) (level + 1))
          then (True, do_export_path (snd (exports_path_expose h e m (case following of None \<Rightarrow> resolved | Some r \<Rightarrow> g_build_filename resolved r) (level + 1))) q FAKE_MODE_SYMLINK)
          else (False, snd (exports_path_expose h e m (case following of None \<Rightarrow> resolved | Some r \<Rightarrow> g_build_filename resolved r) (level + 1))))"
              using guard Some ok cut qf res
              by (simp add: exports_path_expose.simps [of h e m p level] split: prod.splits)
          qed (use guard Some ok cut qf res in simp_all)
        qed
      qed
    qed
  qed
qed

lemma expose_failure_keeps_table:
  "\<not> fst (exports_path_expose h e m p level) \<Longrightarrow> snd (exports_path_expose h e m p level) = e"
proof (induction h e m p level rule: exports_path_expose.induct)
  case (1 h exports m p level)
  show ?case
  proof (cases rule: expose_cases [of h exports m p level])
    case fail
    then show ?thesis by simp
  next
    case direct
    with "1.prems" show ?thesis by simp
  next
    case (chase st q following resolved)
    from "1.prems" chase(8)
    have "\<not> fst (exports_path_expose h exports m (case following of None \<Rightarrow> resolved | Some r \<Rightarrow> g_build_filename resolved r) (level + 1))"
      by (auto split: if_splits)
    moreover from this have "snd (exports_path_expose h exports m (case following of None \<Rightarrow> resolved | Some r \<Rightarrow> g_build_filename resolved r) (level + 1)) = exports"
      by (rule "1.IH" [OF chase(1-6) refl chase(7)])
    ultimately show ?thesis using chase(8) by simp
  qed
qed

subsection \<open>A failed call changes nothing\<close>


lemma expose_relative: "\<not> g_path_is_absolute p \<Longrightarrow> exports_path_expose h e m p level = (False, e)"
  by (simp add: exports_path_expose.simps [of h e m p level])

lemma expose_too_deep: "40 < level \<Longrightarrow> exports_path_expose h e m p level = (False, e)"
  by (simp add: exports_path_expose.simps [of h e m p level])

lemma expose_missing: "lstat h p = None \<Longrightarrow> exports_path_expose h e m p level = (False, e)"
  by (simp add: exports_path_expose.simps [of h e m p level])

lemma expose_bad_type: "lstat h p = Some S_IFOTHER \<Longrightarrow> exports_path_expose h e m p level = (False, e)"
  by (simp add: exports_path_expose.simps [of h e m p level])

lemma expose_denied:
  "list_ex (flatpak_has_path_prefix (flatpak_canonicalize_filename h p)) dont_export_in
   \<Longrightarrow> exports_path_expose h e m p level = (False, e)"
  by (simp add: exports_path_expose.simps [of h e m p level] split: option.splits)

lemma usr_lib_foo_denied:
  "list_ex (flatpak_has_path_prefix (flatpak_canonicalize_filename h ''/usr/lib/foo'')) dont_export_in"
  by (simp add: string_defs dont_export_in_def)

lemma expose_succeeds_iff:
  "fst (exports_path_expose h e m p level) \<longleftrightarrow>
     \<not> 40 < level \<and> g_path_is_absolute p
     \<and> (case lstat h p of
          None \<Rightarrow> False
        | Some st \<Rightarrow>
            (st = S_IFDIR \<or> st = S_IFREG \<or> st = S_IFLNK \<or> st = S_IFSOCK)
            \<and> \<not> list_ex (flatpak_has_path_prefix (flatpak_canonicalize_filename h p)) dont_export_in
            \<and> (case first_symlink_cut h (flatpak_canonicalize_filename h p) of
                 None \<Rightarrow> True
               | Some (q, following) \<Rightarrow>
                   (case flatpak_resolve_link h q of
                      None \<Rightarrow> False
                    | Some resolved \<Rightarrow>
                        fst (exports_path_expose h e m
                               (case following of
                                  Some r \<Rightarrow> g_build_filename resolved r
                                | None \<Rightarrow> resolved)
                               (level + 1)))))"
  by (simp add: exports_path_expose.simps [of h e m p level] split: option.splits prod.splits)

lemma tousr_cut:
  "first_symlink_cut chase_host (flatpak_canonicalize_filename chase_host ''/tousr'') =
     Some (''/tousr'', None)"
  by (simp add: chase_host_sel string_defs expose_defs)

lemma usr_denied:
  "list_ex (flatpak_has_path_prefix (flatpak_canonicalize_filename h ''/usr'')) dont_export_in"
  by (simp add: string_defs dont_export_in_def)

text \<open>
  C6: a call of \<^verbatim>\<open>_exports_path_expose\<close> that returns false leaves the table as it
  was, at every level of the recursion and for every mode, so for each of the public
  functions. A relative name, a missing file, a file of another type, a name under one of
  the \<open>dont_export_in\<close> directories and a level above 40 all make it return false. The
  call returns true exactly when it passes these checks and either no symlink has to be
  followed or the link resolves and the recursive call on its target, one level deeper,
  returns true: a link that does not resolve, and a recursive call that fails for any of
  the reasons above, make the whole call fail with the table unchanged, and nothing is
  recorded for the link. Exposing \<^verbatim>\<open>/usr/lib/foo\<close> read-write fails and leaves every
  table unchanged.
\<close>

theorem failed_expose_keeps_table:
  "(\<not> fst (exports_path_expose h e m p level) \<longrightarrow> snd (exports_path_expose h e m p level) = e)
   \<and> (\<not> g_path_is_absolute p \<or> lstat h p = None \<or> lstat h p = Some S_IFOTHER
        \<or> list_ex (flatpak_has_path_prefix (flatpak_canonicalize_filename h p)) dont_export_in
        \<or> 40 < level
       \<longrightarrow> \<not> fst (exports_path_expose h e m p level))
   \<and> (fst (exports_path_expose h e m p level) \<longleftrightarrow>
        \<not> 40 < level \<and> g_path_is_absolute p
        \<and> (case lstat h p of
             None \<Rightarrow> False
           | Some st \<Rightarrow>
               (st = S_IFDIR \<or> st = S_IFREG \<or> st = S_IFLNK \<or> st = S_IFSOCK)
               \<and> \<not> list_ex (flatpak_has_path_prefix (flatpak_canonicalize_filename h p))
                      dont_export_in
               \<and> (case first_symlink_cut h (flatpak_canonicalize_filename h p) of
                    None \<Rightarrow> True
                  | Some (q, following) \<Rightarrow>
                      (case flatpak_resolve_link h q of
                         None \<Rightarrow> False
                       | Some resolved \<Rightarrow>
                           fst (exports_path_expose h e m
                                  (case following of
                                     Some r \<Rightarrow> g_build_filename resolved r
                                   | None \<Rightarrow> resolved)
                                  (level + 1))))))
   \<and> (first_symlink_cut h (flatpak_canonicalize_filename h p) = Some (q, following)
        \<and> flatpak_resolve_link h q = None
       \<longrightarrow> exports_path_expose h e m p level = (False, e))
   \<and> (first_symlink_cut h (flatpak_canonicalize_filename h p) = Some (q, following)
        \<and> flatpak_resolve_link h q = Some resolved
        \<and> \<not> fst (exports_path_expose h e m
                   (case following of Some r \<Rightarrow> g_build_filename resolved r | None \<Rightarrow> resolved)
                   (level + 1))
       \<longrightarrow> exports_path_expose h e m p level = (False, e))
   \<and> \<not> fst (exports_path_expose h e FLATPAK_FILESYSTEM_MODE_READ_WRITE ''/usr/lib/foo'' 0)
   \<and> flatpak_exports_add_path_expose h e FLATPAK_FILESYSTEM_MODE_READ_WRITE ''/usr/lib/foo'' = e"
proof -
  have keeps: "exports_path_expose h e m p level = (False, e)"
    if "\<not> fst (exports_path_expose h e m p level)"
    using that expose_failure_keeps_table [OF that]
    by (cases "exports_path_expose h e m p level") simp
  have unchanged: "\<not> fst (exports_path_expose h e m p level) \<longrightarrow>
      snd (exports_path_expose h e m p level) = e"
    using expose_failure_keeps_table by blast
  have guards: "\<not> g_path_is_absolute p \<or> lstat h p = None \<or> lstat h p = Some S_IFOTHER
        \<or> list_ex (flatpak_has_path_prefix (flatpak_canonicalize_filename h p)) dont_export_in
        \<or> 40 < level
       \<longrightarrow> \<not> fst (exports_path_expose h e m p level)"
    using expose_relative expose_missing expose_bad_type expose_denied expose_too_deep
    by (metis fst_conv)
  have dangling: "first_symlink_cut h (flatpak_canonicalize_filename h p) = Some (q, following)
        \<and> flatpak_resolve_link h q = None
       \<longrightarrow> exports_path_expose h e m p level = (False, e)"
  proof
    assume "first_symlink_cut h (flatpak_canonicalize_filename h p) = Some (q, following)
        \<and> flatpak_resolve_link h q = None"
    then have "\<not> fst (exports_path_expose h e m p level)"
      by (simp add: expose_succeeds_iff [of h e m p level] split: option.splits)
    then show "exports_path_expose h e m p level = (False, e)" by (rule keeps)
  qed
  have chase: "first_symlink_cut h (flatpak_canonicalize_filename h p) = Some (q, following)
        \<and> flatpak_resolve_link h q = Some resolved
        \<and> \<not> fst (exports_path_expose h e m
                   (case following of Some r \<Rightarrow> g_build_filename resolved r | None \<Rightarrow> resolved)
                   (level + 1))
       \<longrightarrow> exports_path_expose h e m p level = (False, e)"
  proof
    assume "first_symlink_cut h (flatpak_canonicalize_filename h p) = Some (q, following)
        \<and> flatpak_resolve_link h q = Some resolved
        \<and> \<not> fst (exports_path_expose h e m
                   (case following of Some r \<Rightarrow> g_build_filename resolved r | None \<Rightarrow> resolved)
                   (level + 1))"
    then have "\<not> fst (exports_path_expose h e m p level)"
      by (simp add: expose_succeeds_iff [of h e m p level] split: option.splits)
    then show "exports_path_expose h e m p level = (False, e)" by (rule keeps)
  qed
  have foo: "\<not> fst (exports_path_expose h e FLATPAK_FILESYSTEM_MODE_READ_WRITE ''/usr/lib/foo'' 0)"
    by (simp add: expose_denied [OF usr_lib_foo_denied])
  have foo_table:
    "flatpak_exports_add_path_expose h e FLATPAK_FILESYSTEM_MODE_READ_WRITE ''/usr/lib/foo'' = e"
    by (simp add: flatpak_exports_add_path_expose_def expose_denied [OF usr_lib_foo_denied])
  from unchanged guards expose_succeeds_iff [of h e m p level] dangling chase foo foo_table
  show ?thesis by (intro conjI)
qed

lemma cycle_fails_at:
  "nat (41 - level) = n \<Longrightarrow>
     exports_path_expose demo_host e m ''/d/x'' level = (False, e)
     \<and> exports_path_expose demo_host e m ''/d/y'' level = (False, e)"
proof (induction n arbitrary: level)
  case 0
  then have "40 < level" by simp
  then show ?case by (simp add: expose_too_deep)
next
  case (Suc n)
  then have le: "\<not> 40 < level" and n: "nat (41 - (level + 1)) = n" by simp_all
  note IH = Suc.IH [OF n]
  have x: "exports_path_expose demo_host e m ''/d/x'' level = (False, e)"
    using le IH
    by (simp add: exports_path_expose.simps [of demo_host e m "''/d/x''" level]
        demo_host_sel string_defs expose_defs)
  have y: "exports_path_expose demo_host e m ''/d/y'' level = (False, e)"
    using le IH
    by (simp add: exports_path_expose.simps [of demo_host e m "''/d/y''" level]
        demo_host_sel string_defs expose_defs)
  from x y show ?case by simp
qed

lemma cycle_fails: "exports_path_expose demo_host e m ''/d/x'' 0 = (False, e)"
  using cycle_fails_at [of 0 41 e m] by simp

theorem failed_expose_keeps_table_witness:
  "\<not> fst (exports_path_expose demo_host
            \<lparr>hash = [(''/home'', \<lparr>path = ''/home'', mode = FLATPAK_FILESYSTEM_MODE_READ_WRITE\<rparr>)],
             host_fs = 0\<rparr>
            FLATPAK_FILESYSTEM_MODE_READ_ONLY ''/d/x'' 0)
   \<and> snd (exports_path_expose demo_host
            \<lparr>hash = [(''/home'', \<lparr>path = ''/home'', mode = FLATPAK_FILESYSTEM_MODE_READ_WRITE\<rparr>)],
             host_fs = 0\<rparr>
            FLATPAK_FILESYSTEM_MODE_READ_ONLY ''/d/x'' 0)
       = \<lparr>hash = [(''/home'', \<lparr>path = ''/home'', mode = FLATPAK_FILESYSTEM_MODE_READ_WRITE\<rparr>)],
          host_fs = 0\<rparr>
   \<and> \<not> g_path_is_absolute ''etc/passwd''
   \<and> \<not> fst (exports_path_expose demo_host
            \<lparr>hash = [(''/home'', \<lparr>path = ''/home'', mode = FLATPAK_FILESYSTEM_MODE_READ_WRITE\<rparr>)],
             host_fs = 0\<rparr>
            FLATPAK_FILESYSTEM_MODE_READ_ONLY ''etc/passwd'' 0)
   \<and> snd (exports_path_expose demo_host
            \<lparr>hash = [(''/home'', \<lparr>path = ''/home'', mode = FLATPAK_FILESYSTEM_MODE_READ_WRITE\<rparr>)],
             host_fs = 0\<rparr>
            FLATPAK_FILESYSTEM_MODE_READ_ONLY ''etc/passwd'' 0)
       = \<lparr>hash = [(''/home'', \<lparr>path = ''/home'', mode = FLATPAK_FILESYSTEM_MODE_READ_WRITE\<rparr>)],
          host_fs = 0\<rparr>
   \<and> lstat chase_host ''/tousr'' = Some S_IFLNK
   \<and> first_symlink_cut chase_host (flatpak_canonicalize_filename chase_host ''/tousr'') =
       Some (''/tousr'', None)
   \<and> flatpak_resolve_link chase_host ''/tousr'' = Some ''/usr''
   \<and> \<not> fst (exports_path_expose chase_host
            \<lparr>hash = [(''/home'', \<lparr>path = ''/home'', mode = FLATPAK_FILESYSTEM_MODE_READ_WRITE\<rparr>)],
             host_fs = 0\<rparr>
            FLATPAK_FILESYSTEM_MODE_READ_ONLY ''/usr'' 1)
   \<and> exports_path_expose chase_host
        \<lparr>hash = [(''/home'', \<lparr>path = ''/home'', mode = FLATPAK_FILESYSTEM_MODE_READ_WRITE\<rparr>)],
         host_fs = 0\<rparr>
        FLATPAK_FILESYSTEM_MODE_READ_ONLY ''/tousr'' 0
       = (False,
          \<lparr>hash = [(''/home'', \<lparr>path = ''/home'', mode = FLATPAK_FILESYSTEM_MODE_READ_WRITE\<rparr>)],
           host_fs = 0\<rparr>)"
proof -
  let ?T = "\<lparr>hash = [(''/home'', \<lparr>path = ''/home'', mode = FLATPAK_FILESYSTEM_MODE_READ_WRITE\<rparr>)],
             host_fs = 0\<rparr>"
  have failed: "\<not> fst (exports_path_expose demo_host ?T FLATPAK_FILESYSTEM_MODE_READ_ONLY ''/d/x'' 0)"
    by (simp add: cycle_fails)
  with failed_expose_keeps_table [of demo_host ?T FLATPAK_FILESYSTEM_MODE_READ_ONLY "''/d/x''" 0]
  have cycle: "snd (exports_path_expose demo_host ?T FLATPAK_FILESYSTEM_MODE_READ_ONLY ''/d/x'' 0) = ?T"
    by blast
  have relative: "\<not> g_path_is_absolute ''etc/passwd''"
    by (simp add: g_path_is_absolute_def is_slash_def)
  with failed_expose_keeps_table [of demo_host ?T FLATPAK_FILESYSTEM_MODE_READ_ONLY "''etc/passwd''" 0]
  have rejected: "\<not> fst (exports_path_expose demo_host ?T FLATPAK_FILESYSTEM_MODE_READ_ONLY
                          ''etc/passwd'' 0)"
    by blast
  with failed_expose_keeps_table [of demo_host ?T FLATPAK_FILESYSTEM_MODE_READ_ONLY "''etc/passwd''" 0]
  have passwd: "snd (exports_path_expose demo_host ?T FLATPAK_FILESYSTEM_MODE_READ_ONLY ''etc/passwd'' 0) = ?T"
    by blast
  have link: "lstat chase_host ''/tousr'' = Some S_IFLNK"
    and res: "flatpak_resolve_link chase_host ''/tousr'' = Some ''/usr''"
    by (simp_all add: chase_host_sel)
  from failed_expose_keeps_table [of chase_host ?T FLATPAK_FILESYSTEM_MODE_READ_ONLY "''/usr''" 1]
    usr_denied [of chase_host]
  have target: "\<not> fst (exports_path_expose chase_host ?T FLATPAK_FILESYSTEM_MODE_READ_ONLY ''/usr'' 1)"
    by blast
  from failed_expose_keeps_table [of chase_host ?T FLATPAK_FILESYSTEM_MODE_READ_ONLY "''/tousr''" 0
      "''/tousr''" None "''/usr''"] tousr_cut res target
  have chased: "exports_path_expose chase_host ?T FLATPAK_FILESYSTEM_MODE_READ_ONLY ''/tousr'' 0
      = (False, ?T)"
    by simp
  from failed cycle relative rejected passwd link tousr_cut res target chased
  show ?thesis by (intro conjI)
qed

subsection \<open>No symlink entry for /tmp\<close>

lemma tmp_lookup_do_export:
  assumes "\<not> tmp_is_symlink_export e"
    and "p = ''/tmp'' \<longrightarrow> m \<noteq> FAKE_MODE_SYMLINK"
  shows "\<not> tmp_is_symlink_export (do_export_path e p m)"
  using assms
  by (auto simp: tmp_is_symlink_export_def lookup_do_export_path max_def split: option.splits)

lemma first_symlink_cut_not_tmp:
  "first_symlink_cut h c = Some (q, following) \<Longrightarrow> q \<noteq> ''/tmp''"
  by (auto simp: first_symlink_cut_def never_export_as_symlink_def find_Some_iff)

lemma expose_keeps_tmp:
  "m \<noteq> FAKE_MODE_SYMLINK \<Longrightarrow>
   \<not> tmp_is_symlink_export e \<Longrightarrow>
   \<not> tmp_is_symlink_export (snd (exports_path_expose h e m p level))"
proof (induction h e m p level rule: exports_path_expose.induct)
  case (1 h exports m p level)
  show ?case
  proof (cases rule: expose_cases [of h exports m p level])
    case fail
    then show ?thesis using "1.prems" by simp
  next
    case direct
    have "\<not> tmp_is_symlink_export (do_export_path exports (flatpak_canonicalize_filename h p) m)"
      by (rule tmp_lookup_do_export [OF "1.prems"(2)]) (simp add: "1.prems"(1))
    then show ?thesis using direct(2) by simp
  next
    case (chase st q following resolved)
    let ?r = "exports_path_expose h exports m
                (case following of None \<Rightarrow> resolved | Some r \<Rightarrow> g_build_filename resolved r) (level + 1)"
    have inner: "\<not> tmp_is_symlink_export (snd ?r)"
      by (rule "1.IH" [OF chase(1-6) refl chase(7) "1.prems"])
    have "q \<noteq> ''/tmp''" using chase(6) by (rule first_symlink_cut_not_tmp)
    then have "\<not> tmp_is_symlink_export (do_export_path (snd ?r) q FAKE_MODE_SYMLINK)"
      by (intro tmp_lookup_do_export [OF inner]) simp
    then show ?thesis using inner chase(8) by simp
  qed
qed

lemma tmp_is_symlink_export_host_fs:
  "tmp_is_symlink_export (e\<lparr>host_fs := x\<rparr>) = tmp_is_symlink_export e"
  by (simp add: tmp_is_symlink_export_def)

lemma apply_request_keeps_tmp:
  "\<not> passes_fake_symlink r \<Longrightarrow>
   \<not> tmp_is_symlink_export e \<Longrightarrow>
   \<not> tmp_is_symlink_export (apply_request h e r)"
  by (cases r)
     (simp_all add: flatpak_exports_add_path_expose_def flatpak_exports_add_path_tmpfs_def
        flatpak_exports_add_path_expose_or_hide_def flatpak_exports_add_path_dir_def
        flatpak_exports_add_home_expose_def expose_keeps_tmp mode_defs
        tmp_is_symlink_export_host_fs)

text \<open>
  C9: the entry of \<^verbatim>\<open>/tmp\<close>, if there is one, never has the mode
  \<open>FAKE_MODE_SYMLINK\<close>: no sequence of calls of the public functions, on hosts that
  may change from call to call, turns a table without such an entry into one with it,
  even when \<^verbatim>\<open>/tmp\<close> is a symlink on the host. The calls pass values of
  \<^verbatim>\<open>FlatpakFilesystemMode\<close> (or the internal tmpfs and dir modes), never
  \<^verbatim>\<open>G_MAXINT\<close>.
\<close>

theorem tmp_never_symlink:
  assumes "list_all (\<lambda>(h, r). \<not> passes_fake_symlink r) rs"
    and "\<not> tmp_is_symlink_export e"
  shows "\<not> tmp_is_symlink_export (run_requests e rs)"
  using assms
proof (induction rs arbitrary: e)
  case Nil
  then show ?case by (simp add: run_requests_def)
next
  case (Cons hr rs)
  obtain h r where hr: "hr = (h, r)" by (cases hr)
  have "\<not> tmp_is_symlink_export (apply_request h e r)"
    using Cons.prems hr by (simp add: apply_request_keeps_tmp)
  then have "\<not> tmp_is_symlink_export (run_requests (apply_request h e r) rs)"
    using Cons.prems by (intro Cons.IH) simp_all
  then show ?case using hr by (simp add: run_requests_def)
qed

lemma tmp_request_run:
  "run_requests flatpak_exports_new
     [(tmp_link_host, AddPathExpose FLATPAK_FILESYSTEM_MODE_READ_ONLY ''/tmp''),
      (demo_host, AddPathTmpfs ''/home'')]
   = \<lparr>hash = [(''/tmp'', \<lparr>path = ''/tmp'', mode = FLATPAK_FILESYSTEM_MODE_READ_ONLY\<rparr>),
              (''/home'', \<lparr>path = ''/home'', mode = FAKE_MODE_TMPFS\<rparr>)], host_fs = 0\<rparr>"
  by (simp add: run_requests_def flatpak_exports_add_path_expose_def flatpak_exports_add_path_tmpfs_def
      exports_path_expose.simps demo_host_sel tmp_link_host_sel string_defs expose_defs mode_defs)


theorem tmp_never_symlink_witness:
  "list_all (\<lambda>(h, r). \<not> passes_fake_symlink r)
     [(tmp_link_host, AddPathExpose FLATPAK_FILESYSTEM_MODE_READ_ONLY ''/tmp''),
      (demo_host, AddPathTmpfs ''/home'')]
   \<and> path_is_symlink tmp_link_host ''/tmp''
   \<and> 
   \<not> tmp_is_symlink_export flatpak_exports_new
   \<and> map_of (hash (run_requests flatpak_exports_new
        [(tmp_link_host, AddPathExpose FLATPAK_FILESYSTEM_MODE_READ_ONLY ''/tmp''),
         (demo_host, AddPathTmpfs ''/home'')])) ''/tmp''
       = Some \<lparr>path = ''/tmp'', mode = FLATPAK_FILESYSTEM_MODE_READ_ONLY\<rparr>
   \<and> \<not> tmp_is_symlink_export (run_requests flatpak_exports_new
        [(tmp_link_host, AddPathExpose FLATPAK_FILESYSTEM_MODE_READ_ONLY ''/tmp''),
         (demo_host, AddPathTmpfs ''/home'')])"
proof -
  have valid: "list_all (\<lambda>(h, r). \<not> passes_fake_symlink r)
     [(tmp_link_host, AddPathExpose FLATPAK_FILESYSTEM_MODE_READ_ONLY ''/tmp''),
      (demo_host, AddPathTmpfs ''/home'')]"
    by (simp add: mode_defs)
  have link: "path_is_symlink tmp_link_host ''/tmp''"
    by (simp add: path_is_symlink_def tmp_link_host_sel)
  have new: "\<not> tmp_is_symlink_export flatpak_exports_new"
    by (simp add: tmp_is_symlink_export_def flatpak_exports_new_def)
  show ?thesis
    using tmp_never_symlink [OF valid new] valid new link by (simp add: tmp_request_run)
qed

subsection \<open>Merging a request into an entry\<close>

lemma keys_replace_present:
  "map_of kvs k = Some old \<Longrightarrow> map fst (g_hash_table_replace kvs k v) = map fst kvs"
  by (induction kvs k v rule: g_hash_table_replace.induct) (auto split: if_splits)

lemma do_export_path_grows:
  assumes "map_of (hash e) k = Some old"
  shows "\<exists>new. map_of (hash (do_export_path e p m)) k = Some new \<and> mode old \<le> mode new"
  using assms by (auto simp: lookup_do_export_path)

lemma expose_grows:
  "map_of (hash e) k = Some old \<Longrightarrow>
   \<exists>new. map_of (hash (snd (exports_path_expose h e m p level))) k = Some new \<and> mode old \<le> mode new"
proof (induction h e m p level rule: exports_path_expose.induct)
  case (1 h exports m p level)
  show ?case
  proof (cases rule: expose_cases [of h exports m p level])
    case fail
    then show ?thesis using "1.prems" by simp
  next
    case direct
    then show ?thesis using do_export_path_grows [OF "1.prems"] by simp
  next
    case (chase st q following resolved)
    let ?r = "exports_path_expose h exports m
                (case following of None \<Rightarrow> resolved | Some r \<Rightarrow> g_build_filename resolved r) (level + 1)"
    obtain mid where mid: "map_of (hash (snd ?r)) k = Some mid" "mode old \<le> mode mid"
      using "1.IH" [OF chase(1-6) refl chase(7) "1.prems"] by blast
    obtain new where new: "map_of (hash (do_export_path (snd ?r) q FAKE_MODE_SYMLINK)) k = Some new"
        "mode mid \<le> mode new"
      using do_export_path_grows [OF mid(1)] by blast
    show ?thesis
    proof (cases "fst ?r")
      case True
      then show ?thesis using chase(8) new mid(2) by auto
    next
      case False
      then show ?thesis using chase(8) mid by auto
    qed
  qed
qed

lemma apply_request_grows:
  "map_of (hash e) k = Some old \<Longrightarrow>
   \<exists>new. map_of (hash (apply_request h e r)) k = Some new \<and> mode old \<le> mode new"
  by (cases r)
     (simp_all add: flatpak_exports_add_path_expose_def flatpak_exports_add_path_tmpfs_def
        flatpak_exports_add_path_expose_or_hide_def flatpak_exports_add_path_dir_def
        flatpak_exports_add_home_expose_def expose_grows)

lemma run_requests_grows:
  "map_of (hash e) k = Some old \<Longrightarrow>
   \<exists>new. map_of (hash (run_requests e rs)) k = Some new \<and> mode old \<le> mode new"
proof (induction rs arbitrary: e old)
  case Nil
  then show ?case by (simp add: run_requests_def)
next
  case (Cons hr rs)
  obtain h r where hr: "hr = (h, r)" by (cases hr)
  obtain mid where mid: "map_of (hash (apply_request h e r)) k = Some mid" "mode old \<le> mode mid"
    using apply_request_grows [OF Cons.prems] by blast
  obtain new where "map_of (hash (run_requests (apply_request h e r) rs)) k = Some new"
      "mode mid \<le> mode new"
    using Cons.IH [OF mid(1)] by blast
  then show ?case using hr mid(2) by (auto simp: run_requests_def)
qed

lemma expose_direct:
  assumes "g_path_is_absolute p" and "lstat h p = Some st"
    and "st = S_IFDIR \<or> st = S_IFREG \<or> st = S_IFLNK \<or> st = S_IFSOCK"
    and "\<not> list_ex (flatpak_has_path_prefix (flatpak_canonicalize_filename h p)) dont_export_in"
    and "first_symlink_cut h (flatpak_canonicalize_filename h p) = None"
    and "level \<le> 40"
  shows "exports_path_expose h e m p level = (True, do_export_path e (flatpak_canonicalize_filename h p) m)"
  using assms by (simp add: exports_path_expose.simps [of h e m p level])

lemma relinked_table:
  "flatpak_exports_add_path_expose demo_host
     (flatpak_exports_add_path_expose earlier_host flatpak_exports_new
        FLATPAK_FILESYSTEM_MODE_READ_ONLY ''/a'')
     FLATPAK_FILESYSTEM_MODE_READ_WRITE ''/a''
   = \<lparr>hash = [(''/a'', \<lparr>path = ''/a'', mode = FAKE_MODE_SYMLINK\<rparr>),
              (''/b'', \<lparr>path = ''/b'', mode = FLATPAK_FILESYSTEM_MODE_READ_WRITE\<rparr>)],
      host_fs = 0\<rparr>"
  by (simp add: flatpak_exports_add_path_expose_def exports_path_expose.simps demo_host_sel
      earlier_host_sel string_defs expose_defs mode_defs)

lemma link_twice_table:
  "flatpak_exports_add_path_expose demo_host
     (flatpak_exports_add_path_expose demo_host flatpak_exports_new
        FLATPAK_FILESYSTEM_MODE_READ_ONLY ''/a'')
     FLATPAK_FILESYSTEM_MODE_READ_WRITE ''/a''
   = \<lparr>hash = [(''/b'', \<lparr>path = ''/b'', mode = FLATPAK_FILESYSTEM_MODE_READ_WRITE\<rparr>),
              (''/a'', \<lparr>path = ''/a'', mode = FAKE_MODE_SYMLINK\<rparr>)],
      host_fs = 0\<rparr>"
  by (simp add: flatpak_exports_add_path_expose_def exports_path_expose.simps demo_host_sel
      string_defs expose_defs mode_defs)

lemma vanished_table:
  "flatpak_exports_add_path_expose earlier_host
     (flatpak_exports_add_path_expose demo_host flatpak_exports_new
        FLATPAK_FILESYSTEM_MODE_READ_ONLY ''/home'')
     FLATPAK_FILESYSTEM_MODE_READ_WRITE ''/home''
   = \<lparr>hash = [(''/home'', \<lparr>path = ''/home'', mode = FLATPAK_FILESYSTEM_MODE_READ_ONLY\<rparr>)],
      host_fs = 0\<rparr>"
  by (simp add: flatpak_exports_add_path_expose_def exports_path_expose.simps demo_host_sel
      earlier_host_sel string_defs expose_defs mode_defs)

text \<open>
  The wording of C5 against the code. \<^verbatim>\<open>/a\<close> is exposed read-only while it is a
  directory and is in the table with mode ReadOnlyBind; it then becomes a symlink to
  \<^verbatim>\<open>/b\<close> and is exposed read-write: the request leaves \<^verbatim>\<open>/a\<close> with mode
  Symlink, which is not the maximum of ReadOnlyBind and ReadWriteBind, and adds the key
  \<^verbatim>\<open>/b\<close>. Exposing the symlink \<^verbatim>\<open>/a\<close> read-only and then read-write in a new
  table gives two entries, and the one of \<^verbatim>\<open>/a\<close> is not a ReadWriteBind entry. A
  request that fails (here \<^verbatim>\<open>/home\<close> no longer exists) leaves the old mode.
\<close>

theorem merge_on_symlink_counterexample:
  "map_of (hash (flatpak_exports_add_path_expose earlier_host flatpak_exports_new
        FLATPAK_FILESYSTEM_MODE_READ_ONLY ''/a'')) ''/a''
     = Some \<lparr>path = ''/a'', mode = FLATPAK_FILESYSTEM_MODE_READ_ONLY\<rparr>
   \<and> map_of (hash (flatpak_exports_add_path_expose demo_host
        (flatpak_exports_add_path_expose earlier_host flatpak_exports_new
           FLATPAK_FILESYSTEM_MODE_READ_ONLY ''/a'')
        FLATPAK_FILESYSTEM_MODE_READ_WRITE ''/a'')) ''/a''
     = Some \<lparr>path = ''/a'', mode = FAKE_MODE_SYMLINK\<rparr>
   \<and> max FLATPAK_FILESYSTEM_MODE_READ_ONLY FLATPAK_FILESYSTEM_MODE_READ_WRITE \<noteq> FAKE_MODE_SYMLINK
   \<and> map fst (hash (flatpak_exports_add_path_expose earlier_host flatpak_exports_new
        FLATPAK_FILESYSTEM_MODE_READ_ONLY ''/a'')) = [''/a'']
   \<and> map fst (hash (flatpak_exports_add_path_expose demo_host
        (flatpak_exports_add_path_expose earlier_host flatpak_exports_new
           FLATPAK_FILESYSTEM_MODE_READ_ONLY ''/a'')
        FLATPAK_FILESYSTEM_MODE_READ_WRITE ''/a'')) = [''/a'', ''/b'']
   \<and> hash (flatpak_exports_add_path_expose demo_host
        (flatpak_exports_add_path_expose demo_host flatpak_exports_new
           FLATPAK_FILESYSTEM_MODE_READ_ONLY ''/a'')
        FLATPAK_FILESYSTEM_MODE_READ_WRITE ''/a'')
     = [(''/b'', \<lparr>path = ''/b'', mode = FLATPAK_FILESYSTEM_MODE_READ_WRITE\<rparr>),
        (''/a'', \<lparr>path = ''/a'', mode = FAKE_MODE_SYMLINK\<rparr>)]
   \<and> map_of (hash (flatpak_exports_add_path_expose demo_host flatpak_exports_new
        FLATPAK_FILESYSTEM_MODE_READ_ONLY ''/home'')) ''/home''
     = Some \<lparr>path = ''/home'', mode = FLATPAK_FILESYSTEM_MODE_READ_ONLY\<rparr>
   \<and> map_of (hash (flatpak_exports_add_path_expose earlier_host
        (flatpak_exports_add_path_expose demo_host flatpak_exports_new
           FLATPAK_FILESYSTEM_MODE_READ_ONLY ''/home'')
        FLATPAK_FILESYSTEM_MODE_READ_WRITE ''/home'')) ''/home''
     = Some \<lparr>path = ''/home'', mode = FLATPAK_FILESYSTEM_MODE_READ_ONLY\<rparr>
   \<and> max FLATPAK_FILESYSTEM_MODE_READ_ONLY FLATPAK_FILESYSTEM_MODE_READ_WRITE
       \<noteq> FLATPAK_FILESYSTEM_MODE_READ_ONLY"
proof -
  have first: "flatpak_exports_add_path_expose earlier_host flatpak_exports_new
        FLATPAK_FILESYSTEM_MODE_READ_ONLY ''/a''
      = \<lparr>hash = [(''/a'', \<lparr>path = ''/a'', mode = FLATPAK_FILESYSTEM_MODE_READ_ONLY\<rparr>)],
         host_fs = 0\<rparr>"
    by (simp add: flatpak_exports_add_path_expose_def exports_path_expose.simps earlier_host_sel
        string_defs expose_defs)
  have home: "flatpak_exports_add_path_expose demo_host flatpak_exports_new
        FLATPAK_FILESYSTEM_MODE_READ_ONLY ''/home''
      = \<lparr>hash = [(''/home'', \<lparr>path = ''/home'', mode = FLATPAK_FILESYSTEM_MODE_READ_ONLY\<rparr>)],
         host_fs = 0\<rparr>"
    by (simp add: flatpak_exports_add_path_expose_def exports_path_expose.simps demo_host_sel
        string_defs expose_defs)
  show ?thesis
    unfolding relinked_table link_twice_table vanished_table
    unfolding first home
    by (simp add: mode_defs)
qed

text \<open>
  C5 (amended): the modes are ordered Dir < Tmpfs < ReadOnlyBind < ReadWriteBind <
  Symlink; for a path that is in the table with mode \<open>m_old\<close>, \<^verbatim>\<open>do_export_path\<close>
  with \<open>m_new\<close> leaves the keys as they are and sets the mode to the maximum of the
  two, and so does a call of \<^verbatim>\<open>flatpak_exports_add_path_expose\<close> for a path that is
  recorded under its own name: it is absolute, exists with one of the four file types, is
  not under a \<open>dont_export_in\<close> directory, and none of its cuts is a symlink to
  follow. Over any sequence of calls of the public functions, whatever the paths and on
  hosts that may change, the mode of an entry never decreases. Exposing a path that is
  recorded under its own name read-only and then read-write, or the other way round, in a
  new table gives exactly one entry, with mode ReadWriteBind.
\<close>

theorem merge_takes_maximum:
  "FAKE_MODE_DIR < FAKE_MODE_TMPFS \<and> FAKE_MODE_TMPFS < FLATPAK_FILESYSTEM_MODE_READ_ONLY
   \<and> FLATPAK_FILESYSTEM_MODE_READ_ONLY < FLATPAK_FILESYSTEM_MODE_READ_WRITE
   \<and> FLATPAK_FILESYSTEM_MODE_READ_WRITE < FAKE_MODE_SYMLINK
   \<and> (map_of (hash e) k = Some old \<longrightarrow>
        map_of (hash (do_export_path e k m)) k = Some \<lparr>path = k, mode = max (mode old) m\<rparr>
        \<and> map fst (hash (do_export_path e k m)) = map fst (hash e)
        \<and> (\<exists>new. map_of (hash (run_requests e rs)) k = Some new \<and> mode old \<le> mode new))
   \<and> (g_path_is_absolute p \<and> lstat h p = Some st
        \<and> (st = S_IFDIR \<or> st = S_IFREG \<or> st = S_IFLNK \<or> st = S_IFSOCK)
        \<and> \<not> list_ex (flatpak_has_path_prefix (flatpak_canonicalize_filename h p)) dont_export_in
        \<and> first_symlink_cut h (flatpak_canonicalize_filename h p) = None
       \<longrightarrow> (map_of (hash e) (flatpak_canonicalize_filename h p) = Some old \<longrightarrow>
              map_of (hash (flatpak_exports_add_path_expose h e m p)) (flatpak_canonicalize_filename h p)
                = Some \<lparr>path = flatpak_canonicalize_filename h p, mode = max (mode old) m\<rparr>
              \<and> map fst (hash (flatpak_exports_add_path_expose h e m p)) = map fst (hash e))
           \<and> hash (flatpak_exports_add_path_expose h
                   (flatpak_exports_add_path_expose h flatpak_exports_new
                      FLATPAK_FILESYSTEM_MODE_READ_ONLY p)
                   FLATPAK_FILESYSTEM_MODE_READ_WRITE p)
             = [(flatpak_canonicalize_filename h p,
                 \<lparr>path = flatpak_canonicalize_filename h p, mode = FLATPAK_FILESYSTEM_MODE_READ_WRITE\<rparr>)]
           \<and> hash (flatpak_exports_add_path_expose h
                   (flatpak_exports_add_path_expose h flatpak_exports_new
                      FLATPAK_FILESYSTEM_MODE_READ_WRITE p)
                   FLATPAK_FILESYSTEM_MODE_READ_ONLY p)
             = [(flatpak_canonicalize_filename h p,
                 \<lparr>path = flatpak_canonicalize_filename h p, mode = FLATPAK_FILESYSTEM_MODE_READ_WRITE\<rparr>)])"
proof -
  have order: "FAKE_MODE_DIR < FAKE_MODE_TMPFS \<and> FAKE_MODE_TMPFS < FLATPAK_FILESYSTEM_MODE_READ_ONLY
   \<and> FLATPAK_FILESYSTEM_MODE_READ_ONLY < FLATPAK_FILESYSTEM_MODE_READ_WRITE
   \<and> FLATPAK_FILESYSTEM_MODE_READ_WRITE < FAKE_MODE_SYMLINK"
    by (simp add: mode_defs)
  have merge: "map_of (hash (do_export_path e k m)) k = Some \<lparr>path = k, mode = max (mode old) m\<rparr>
        \<and> map fst (hash (do_export_path e k m)) = map fst (hash e)
        \<and> (\<exists>new. map_of (hash (run_requests e rs)) k = Some new \<and> mode old \<le> mode new)"
    if old: "map_of (hash e) k = Some old"
  proof (intro conjI)
    show "map_of (hash (do_export_path e k m)) k = Some \<lparr>path = k, mode = max (mode old) m\<rparr>"
      using old by (simp add: lookup_do_export_path)
    show "map fst (hash (do_export_path e k m)) = map fst (hash e)"
      using old by (simp add: do_export_path_def keys_replace_present)
    show "\<exists>new. map_of (hash (run_requests e rs)) k = Some new \<and> mode old \<le> mode new"
      using old by (rule run_requests_grows)
  qed
  have twice: "hash (flatpak_exports_add_path_expose h
                   (flatpak_exports_add_path_expose h flatpak_exports_new m1 p) m2 p)
             = [(flatpak_canonicalize_filename h p,
                 \<lparr>path = flatpak_canonicalize_filename h p, mode = max m1 m2\<rparr>)]"
    if "g_path_is_absolute p" "lstat h p = Some st"
      "st = S_IFDIR \<or> st = S_IFREG \<or> st = S_IFLNK \<or> st = S_IFSOCK"
      "\<not> list_ex (flatpak_has_path_prefix (flatpak_canonicalize_filename h p)) dont_export_in"
      "first_symlink_cut h (flatpak_canonicalize_filename h p) = None" for m1 m2
    using expose_direct [OF that, of 0]
    by (simp add: flatpak_exports_add_path_expose_def do_export_path_def flatpak_exports_new_def)
  have request: "map_of (hash (flatpak_exports_add_path_expose h e m p)) (flatpak_canonicalize_filename h p)
                = Some \<lparr>path = flatpak_canonicalize_filename h p, mode = max (mode old) m\<rparr>
              \<and> map fst (hash (flatpak_exports_add_path_expose h e m p)) = map fst (hash e)"
    if "g_path_is_absolute p" "lstat h p = Some st"
      "st = S_IFDIR \<or> st = S_IFREG \<or> st = S_IFLNK \<or> st = S_IFSOCK"
      "\<not> list_ex (flatpak_has_path_prefix (flatpak_canonicalize_filename h p)) dont_export_in"
      "first_symlink_cut h (flatpak_canonicalize_filename h p) = None"
      "map_of (hash e) (flatpak_canonicalize_filename h p) = Some old"
    using expose_direct [OF that(1-5), of 0 e m] that(6)
    by (simp add: flatpak_exports_add_path_expose_def lookup_do_export_path)
       (simp add: do_export_path_def keys_replace_present)
  show ?thesis
    using order merge request
      twice [of FLATPAK_FILESYSTEM_MODE_READ_ONLY FLATPAK_FILESYSTEM_MODE_READ_WRITE]
      twice [of FLATPAK_FILESYSTEM_MODE_READ_WRITE FLATPAK_FILESYSTEM_MODE_READ_ONLY]
    by (simp add: mode_defs)
qed


theorem merge_takes_maximum_witness:
  "map_of (hash \<lparr>hash = [(''/home'', \<lparr>path = ''/home'', mode = FLATPAK_FILESYSTEM_MODE_READ_ONLY\<rparr>)],
                 host_fs = 0\<rparr>) ''/home''
     = Some \<lparr>path = ''/home'', mode = FLATPAK_FILESYSTEM_MODE_READ_ONLY\<rparr>
   \<and> map_of (hash (do_export_path
          \<lparr>hash = [(''/home'', \<lparr>path = ''/home'', mode = FLATPAK_FILESYSTEM_MODE_READ_ONLY\<rparr>)],
           host_fs = 0\<rparr> ''/home'' FLATPAK_FILESYSTEM_MODE_READ_WRITE)) ''/home''
     = Some \<lparr>path = ''/home'', mode = FLATPAK_FILESYSTEM_MODE_READ_WRITE\<rparr>
   \<and> map_of (hash (flatpak_exports_add_path_expose demo_host
          \<lparr>hash = [(''/home'', \<lparr>path = ''/home'', mode = FLATPAK_FILESYSTEM_MODE_READ_ONLY\<rparr>)],
           host_fs = 0\<rparr> FLATPAK_FILESYSTEM_MODE_READ_WRITE ''/home'')) ''/home''
     = Some \<lparr>path = ''/home'', mode = FLATPAK_FILESYSTEM_MODE_READ_WRITE\<rparr>
   \<and> g_path_is_absolute ''/home''
   \<and> lstat demo_host ''/home'' = Some S_IFDIR
   \<and> \<not> list_ex (flatpak_has_path_prefix (flatpak_canonicalize_filename demo_host ''/home''))
          dont_export_in
   \<and> first_symlink_cut demo_host (flatpak_canonicalize_filename demo_host ''/home'') = None
   \<and> hash (flatpak_exports_add_path_expose demo_host
              (flatpak_exports_add_path_expose demo_host flatpak_exports_new
                 FLATPAK_FILESYSTEM_MODE_READ_ONLY ''/home'')
              FLATPAK_FILESYSTEM_MODE_READ_WRITE ''/home'')
     = [(''/home'', \<lparr>path = ''/home'', mode = FLATPAK_FILESYSTEM_MODE_READ_WRITE\<rparr>)]
   \<and> hash (flatpak_exports_add_path_expose demo_host
              (flatpak_exports_add_path_expose demo_host flatpak_exports_new
                 FLATPAK_FILESYSTEM_MODE_READ_WRITE ''/home'')
              FLATPAK_FILESYSTEM_MODE_READ_ONLY ''/home'')
     = [(''/home'', \<lparr>path = ''/home'', mode = FLATPAK_FILESYSTEM_MODE_READ_WRITE\<rparr>)]"
proof -
  let ?E = "\<lparr>hash = [(''/home'', \<lparr>path = ''/home'', mode = FLATPAK_FILESYSTEM_MODE_READ_ONLY\<rparr>)],
            host_fs = 0\<rparr>"
  have canon: "flatpak_canonicalize_filename demo_host ''/home'' = ''/home''"
    by (simp add: string_defs)
  have present: "map_of (hash ?E) ''/home''
      = Some \<lparr>path = ''/home'', mode = FLATPAK_FILESYSTEM_MODE_READ_ONLY\<rparr>"
    by simp
  have absolute: "g_path_is_absolute ''/home''"
    by (simp add: string_defs)
  have dir: "lstat demo_host ''/home'' = Some S_IFDIR"
    by (simp add: demo_host_sel)
  have allowed: "\<not> list_ex (flatpak_has_path_prefix (flatpak_canonicalize_filename demo_host ''/home''))
          dont_export_in"
    unfolding canon by (simp add: string_defs dont_export_in_def)
  have no_link: "first_symlink_cut demo_host (flatpak_canonicalize_filename demo_host ''/home'') = None"
    unfolding canon by (simp add: expose_defs string_defs demo_host_sel)
  show ?thesis
    using merge_takes_maximum [where e = ?E and k = "''/home''" and m = FLATPAK_FILESYSTEM_MODE_READ_WRITE
        and old = "\<lparr>path = ''/home'', mode = FLATPAK_FILESYSTEM_MODE_READ_ONLY\<rparr>"
        and h = demo_host and p = "''/home''" and st = S_IFDIR]
      present absolute dir allowed no_link
    by (simp add: canon mode_defs)
qed

subsection \<open>The last matching key decides\<close>

lemma foldl_last_wins:
  "foldl (\<lambda>acc k. if hit k then verdict k else acc) b ks =
     (if filter hit ks = [] then b else verdict (last (filter hit ks)))"
  by (induction ks rule: rev_induct) simp_all

lemma path_is_mapped_fold:
  "path_is_mapped keys tbl p =
     foldl (\<lambda>acc k.
        if (case map_of tbl k of None \<Rightarrow> False
            | Some ep \<Rightarrow> flatpak_has_path_prefix p k \<and> mode ep \<noteq> FAKE_MODE_DIR)
        then (case map_of tbl k of None \<Rightarrow> False
              | Some ep \<Rightarrow> if mode ep = FAKE_MODE_SYMLINK then p = k
                          else mode ep \<noteq> FAKE_MODE_TMPFS)
        else acc) False keys"
  unfolding path_is_mapped_def
  by (rule arg_cong [where f = "\<lambda>f. foldl f False keys"]) (auto simp: fun_eq_iff split: option.splits)

lemma path_parent_is_mapped_fold:
  "path_parent_is_mapped keys tbl p =
     foldl (\<lambda>acc k.
        if (case map_of tbl k of None \<Rightarrow> False
            | Some ep \<Rightarrow> flatpak_has_path_prefix p k \<and> p \<noteq> k \<and> mode ep \<noteq> FAKE_MODE_DIR)
        then (case map_of tbl k of None \<Rightarrow> False
              | Some ep \<Rightarrow> mode ep \<noteq> FAKE_MODE_TMPFS)
        else acc) False keys"
  unfolding path_parent_is_mapped_def
  by (rule arg_cong [where f = "\<lambda>f. foldl f False keys"]) (auto simp: fun_eq_iff split: option.splits)

lemma path_is_mapped_last:
  "path_is_mapped keys tbl p \<longleftrightarrow>
     (let ms = filter (\<lambda>k. case map_of tbl k of None \<Rightarrow> False
                           | Some ep \<Rightarrow> flatpak_has_path_prefix p k \<and> mode ep \<noteq> FAKE_MODE_DIR) keys
      in ms \<noteq> [] \<and>
         (case map_of tbl (last ms) of None \<Rightarrow> False
          | Some ep \<Rightarrow> if mode ep = FAKE_MODE_SYMLINK then p = last ms
                      else mode ep \<noteq> FAKE_MODE_TMPFS))"
  unfolding path_is_mapped_fold foldl_last_wins by (simp add: Let_def)

lemma path_parent_is_mapped_last:
  "path_parent_is_mapped keys tbl p \<longleftrightarrow>
     (let ms = filter (\<lambda>k. case map_of tbl k of None \<Rightarrow> False
                           | Some ep \<Rightarrow> flatpak_has_path_prefix p k \<and> p \<noteq> k
                                       \<and> mode ep \<noteq> FAKE_MODE_DIR) keys
      in ms \<noteq> [] \<and>
         (case map_of tbl (last ms) of None \<Rightarrow> False
          | Some ep \<Rightarrow> mode ep \<noteq> FAKE_MODE_TMPFS))"
  unfolding path_parent_is_mapped_fold foldl_last_wins by (simp add: Let_def)

lemma path_is_mapped_imp_spec:
  assumes "path_is_mapped keys tbl p"
  shows "spec_predicate_B tbl p"
proof -
  let ?hit = "\<lambda>k. case map_of tbl k of None \<Rightarrow> False
                           | Some ep \<Rightarrow> flatpak_has_path_prefix p k \<and> mode ep \<noteq> FAKE_MODE_DIR"
  from assms have ne: "filter ?hit keys \<noteq> []"
    and dec: "case map_of tbl (last (filter ?hit keys)) of None \<Rightarrow> False
          | Some ep \<Rightarrow> if mode ep = FAKE_MODE_SYMLINK then p = last (filter ?hit keys)
                      else mode ep \<noteq> FAKE_MODE_TMPFS"
    by (simp_all add: path_is_mapped_last Let_def)
  define k where "k = last (filter ?hit keys)"
  have "k \<in> set (filter ?hit keys)" unfolding k_def using ne by (rule last_in_set)
  then have hit: "?hit k" by simp
  then obtain ep where ep: "map_of tbl k = Some ep" by (cases "map_of tbl k") auto
  have "(k, ep) \<in> set tbl" using ep by (rule map_of_SomeD)
  moreover have "flatpak_has_path_prefix p k \<and> mode ep \<noteq> FAKE_MODE_DIR
      \<and> (if mode ep = FAKE_MODE_SYMLINK then k = p else True)"
    using hit dec ep by (auto simp: k_def split: if_splits)
  ultimately show ?thesis
    unfolding spec_predicate_B_def list_ex_iff by blast
qed

lemma path_parent_is_mapped_imp_spec:
  assumes "path_parent_is_mapped keys tbl p"
  shows "spec_predicate_A tbl p"
proof -
  let ?hit = "\<lambda>k. case map_of tbl k of None \<Rightarrow> False
                | Some ep \<Rightarrow> flatpak_has_path_prefix p k \<and> p \<noteq> k \<and> mode ep \<noteq> FAKE_MODE_DIR"
  from assms have ne: "filter ?hit keys \<noteq> []"
    and dec: "case map_of tbl (last (filter ?hit keys)) of None \<Rightarrow> False
          | Some ep \<Rightarrow> mode ep \<noteq> FAKE_MODE_TMPFS"
    by (simp_all add: path_parent_is_mapped_last Let_def)
  define k where "k = last (filter ?hit keys)"
  have "k \<in> set (filter ?hit keys)" unfolding k_def using ne by (rule last_in_set)
  then have hit: "?hit k" by simp
  then obtain ep where ep: "map_of tbl k = Some ep" by (cases "map_of tbl k") auto
  have "(k, ep) \<in> set tbl" using ep by (rule map_of_SomeD)
  moreover have "flatpak_has_path_prefix p k \<and> k \<noteq> p \<and> mode ep \<noteq> FAKE_MODE_DIR
      \<and> mode ep \<noteq> FAKE_MODE_TMPFS"
    using hit dec ep by (auto simp: k_def)
  ultimately show ?thesis
    unfolding spec_predicate_A_def list_ex_iff by blast
qed

lemma home_tmpfs_table:
  "flatpak_exports_add_path_tmpfs demo_host flatpak_exports_new ''/home''
   = \<lparr>hash = [(''/home'', \<lparr>path = ''/home'', mode = FAKE_MODE_TMPFS\<rparr>)], host_fs = 0\<rparr>"
  by (simp add: flatpak_exports_add_path_tmpfs_def exports_path_expose.simps demo_host_sel
      string_defs expose_defs)

lemma home_priv_table:
  "run_requests flatpak_exports_new
     [(demo_host, AddPathExpose FLATPAK_FILESYSTEM_MODE_READ_WRITE ''/home''),
      (demo_host, AddPathTmpfs ''/home/u/priv'')]
   = \<lparr>hash = [(''/home'', \<lparr>path = ''/home'', mode = FLATPAK_FILESYSTEM_MODE_READ_WRITE\<rparr>),
              (''/home/u/priv'', \<lparr>path = ''/home/u/priv'', mode = FAKE_MODE_TMPFS\<rparr>)],
      host_fs = 0\<rparr>"
  by (simp add: run_requests_def flatpak_exports_add_path_expose_def flatpak_exports_add_path_tmpfs_def
      exports_path_expose.simps demo_host_sel string_defs expose_defs mode_defs)

text \<open>
  The wording of C2 against the code: after \<^verbatim>\<open>flatpak_exports_add_path_tmpfs\<close> of
  \<^verbatim>\<open>/home\<close> the table holds the one entry \<^verbatim>\<open>/home\<close> with mode Tmpfs. The
  entry equals the candidate \<^verbatim>\<open>/home\<close> and its mode is not Dir, so predicate B as
  worded holds, while \<open>path_is_mapped\<close> returns false.
\<close>

theorem path_is_mapped_counterexample:
  "spec_predicate_B
     (hash (flatpak_exports_add_path_tmpfs demo_host flatpak_exports_new ''/home'')) ''/home''
   \<and> \<not> path_is_mapped
        (sorted_keys (hash (flatpak_exports_add_path_tmpfs demo_host flatpak_exports_new ''/home'')))
        (hash (flatpak_exports_add_path_tmpfs demo_host flatpak_exports_new ''/home'')) ''/home''"
  unfolding home_tmpfs_table
  by (simp add: spec_predicate_B_def path_is_mapped_def sorted_keys_def mode_defs string_defs)

text \<open>
  The wording of C3 against the code: the table holds \<^verbatim>\<open>/home\<close> read-write and
  \<^verbatim>\<open>/home/u/priv\<close> as tmpfs. For the candidate \<^verbatim>\<open>/home/u/priv/key\<close> the strict
  ancestor \<^verbatim>\<open>/home\<close> has a mode other than Dir and Tmpfs, so predicate A as worded
  holds, while \<open>path_parent_is_mapped\<close> returns false: the tmpfs entry comes later in
  the sorted keys and overwrites the answer.
\<close>

theorem path_parent_is_mapped_counterexample:
  "spec_predicate_A
     (hash (run_requests flatpak_exports_new
        [(demo_host, AddPathExpose FLATPAK_FILESYSTEM_MODE_READ_WRITE ''/home''),
         (demo_host, AddPathTmpfs ''/home/u/priv'')])) ''/home/u/priv/key''
   \<and> \<not> path_parent_is_mapped
        (sorted_keys (hash (run_requests flatpak_exports_new
           [(demo_host, AddPathExpose FLATPAK_FILESYSTEM_MODE_READ_WRITE ''/home''),
            (demo_host, AddPathTmpfs ''/home/u/priv'')])))
        (hash (run_requests flatpak_exports_new
           [(demo_host, AddPathExpose FLATPAK_FILESYSTEM_MODE_READ_WRITE ''/home''),
            (demo_host, AddPathTmpfs ''/home/u/priv'')])) ''/home/u/priv/key''"
  unfolding home_priv_table
  by (simp add: spec_predicate_A_def path_parent_is_mapped_def sorted_keys_def mode_defs string_defs)


text \<open>
  C2 (amended): \<open>path_is_mapped\<close> returns true if and only if, among the keys in the
  order given (the callers pass them sorted, parents before children), there is an entry
  whose path is a prefix of or equal to the candidate and whose mode is not Dir, and the
  last such entry is either a Symlink entry whose path equals the candidate or an entry
  whose mode is neither Symlink nor Tmpfs. If it returns true, predicate B as the
  specification words it holds; the converse fails.
\<close>

theorem path_is_mapped_last_entry_decides:
  "(path_is_mapped keys tbl p \<longleftrightarrow>
     (let ms = filter (\<lambda>k. case map_of tbl k of None \<Rightarrow> False
                           | Some ep \<Rightarrow> flatpak_has_path_prefix p k \<and> mode ep \<noteq> FAKE_MODE_DIR) keys
      in ms \<noteq> [] \<and>
         (case map_of tbl (last ms) of None \<Rightarrow> False
          | Some ep \<Rightarrow> if mode ep = FAKE_MODE_SYMLINK then p = last ms
                      else mode ep \<noteq> FAKE_MODE_TMPFS)))
   \<and> (path_is_mapped keys tbl p \<longrightarrow> spec_predicate_B tbl p)"
  using path_is_mapped_last [of keys tbl p] path_is_mapped_imp_spec [of keys tbl p] by blast

theorem path_is_mapped_last_entry_decides_witness:
  "path_is_mapped
     (sorted_keys
        [(''/home'', \<lparr>path = ''/home'', mode = FLATPAK_FILESYSTEM_MODE_READ_WRITE\<rparr>),
         (''/home/u/priv'', \<lparr>path = ''/home/u/priv'', mode = FAKE_MODE_TMPFS\<rparr>)])
     [(''/home'', \<lparr>path = ''/home'', mode = FLATPAK_FILESYSTEM_MODE_READ_WRITE\<rparr>),
      (''/home/u/priv'', \<lparr>path = ''/home/u/priv'', mode = FAKE_MODE_TMPFS\<rparr>)] ''/home/u''
   \<and> spec_predicate_B
     [(''/home'', \<lparr>path = ''/home'', mode = FLATPAK_FILESYSTEM_MODE_READ_WRITE\<rparr>),
      (''/home/u/priv'', \<lparr>path = ''/home/u/priv'', mode = FAKE_MODE_TMPFS\<rparr>)] ''/home/u''"
proof -
  let ?T = "[(''/home'', \<lparr>path = ''/home'', mode = FLATPAK_FILESYSTEM_MODE_READ_WRITE\<rparr>),
             (''/home/u/priv'', \<lparr>path = ''/home/u/priv'', mode = FAKE_MODE_TMPFS\<rparr>)]"
  have mapped: "path_is_mapped (sorted_keys ?T) ?T ''/home/u''"
    by (simp add: path_is_mapped_def sorted_keys_def mode_defs string_defs)
  with path_is_mapped_last_entry_decides [of "sorted_keys ?T" ?T "''/home/u''"]
  have "spec_predicate_B ?T ''/home/u''" by blast
  with mapped show ?thesis by simp
qed

text \<open>
  C3 (amended): \<open>path_parent_is_mapped\<close> returns true if and only if, among the keys
  in the order given (sorted, parents before children), there is an entry whose path is
  a strict prefix of the candidate and whose mode is not Dir, and the last such entry
  has a mode other than Tmpfs. If it returns true, predicate A as the specification
  words it holds; the converse fails.
\<close>

theorem path_parent_is_mapped_last_entry_decides:
  "(path_parent_is_mapped keys tbl p \<longleftrightarrow>
     (let ms = filter (\<lambda>k. case map_of tbl k of None \<Rightarrow> False
                           | Some ep \<Rightarrow> flatpak_has_path_prefix p k \<and> p \<noteq> k
                                       \<and> mode ep \<noteq> FAKE_MODE_DIR) keys
      in ms \<noteq> [] \<and>
         (case map_of tbl (last ms) of None \<Rightarrow> False
          | Some ep \<Rightarrow> mode ep \<noteq> FAKE_MODE_TMPFS)))
   \<and> (path_parent_is_mapped keys tbl p \<longrightarrow> spec_predicate_A tbl p)"
  using path_parent_is_mapped_last [of keys tbl p] path_parent_is_mapped_imp_spec [of keys tbl p]
  by blast

theorem path_parent_is_mapped_last_entry_decides_witness:
  "path_parent_is_mapped
     (sorted_keys
        [(''/home'', \<lparr>path = ''/home'', mode = FLATPAK_FILESYSTEM_MODE_READ_WRITE\<rparr>),
         (''/home/u/priv'', \<lparr>path = ''/home/u/priv'', mode = FAKE_MODE_TMPFS\<rparr>)])
     [(''/home'', \<lparr>path = ''/home'', mode = FLATPAK_FILESYSTEM_MODE_READ_WRITE\<rparr>),
      (''/home/u/priv'', \<lparr>path = ''/home/u/priv'', mode = FAKE_MODE_TMPFS\<rparr>)] ''/home/u/priv''
   \<and> spec_predicate_A
     [(''/home'', \<lparr>path = ''/home'', mode = FLATPAK_FILESYSTEM_MODE_READ_WRITE\<rparr>),
      (''/home/u/priv'', \<lparr>path = ''/home/u/priv'', mode = FAKE_MODE_TMPFS\<rparr>)] ''/home/u/priv''"
proof -
  let ?T = "[(''/home'', \<lparr>path = ''/home'', mode = FLATPAK_FILESYSTEM_MODE_READ_WRITE\<rparr>),
             (''/home/u/priv'', \<lparr>path = ''/home/u/priv'', mode = FAKE_MODE_TMPFS\<rparr>)]"
  have mapped: "path_parent_is_mapped (sorted_keys ?T) ?T ''/home/u/priv''"
    by (simp add: path_parent_is_mapped_def sorted_keys_def mode_defs string_defs)
  with path_parent_is_mapped_last_entry_decides [of "sorted_keys ?T" ?T "''/home/u/priv''"]
  have "spec_predicate_A ?T ''/home/u/priv''" by blast
  with mapped show ?thesis by simp
qed

lemma foldl_append_args:
  "foldl (\<lambda>args ep. args @ f ep) b eps = b @ concat (map f eps)"
  by (induction eps arbitrary: b) simp_all

text \<open>
  C4 (amended): the arguments generated for a table are those of its entries, in the
  order of their paths, followed by those of \<open>host_fs\<close>. A Tmpfs entry whose path is
  a directory on the host gives \<^verbatim>\<open>--tmpfs\<close> exactly when \<open>path_parent_is_mapped\<close>
  holds of its path (predicate A as the code computes it: the last strict ancestor that
  is not a Dir entry is not a Tmpfs entry either), and \<^verbatim>\<open>--dir\<close> otherwise; a Tmpfs
  entry whose path is no directory gives nothing.
\<close>

theorem tmpfs_entry_follows_parent:
  "flatpak_exports_append_bwrap_args h exports bwrap =
     bwrap
     @ concat (map (entry_args h (sorted_keys (hash exports)) (hash exports))
                   (sort_key path (map snd (hash exports))))
     @ host_fs_args h exports
   \<and> (mode ep = FAKE_MODE_TMPFS \<and> path_is_dir h (path ep) \<longrightarrow>
        entry_args h keys tbl ep =
          (if path_parent_is_mapped keys tbl (path ep) then [''--tmpfs'', path ep]
           else [''--dir'', path ep]))
   \<and> (mode ep = FAKE_MODE_TMPFS \<and> \<not> path_is_dir h (path ep) \<longrightarrow> entry_args h keys tbl ep = [])"
proof (intro conjI)
  show "flatpak_exports_append_bwrap_args h exports bwrap =
     bwrap
     @ concat (map (entry_args h (sorted_keys (hash exports)) (hash exports))
                   (sort_key path (map snd (hash exports))))
     @ host_fs_args h exports"
    by (simp add: flatpak_exports_append_bwrap_args_def foldl_append_args Let_def)
qed (simp_all add: entry_args_def mode_defs)

theorem tmpfs_entry_follows_parent_witness:
  "mode \<lparr>path = ''/home/u/priv'', mode = FAKE_MODE_TMPFS\<rparr> = FAKE_MODE_TMPFS
   \<and> path_is_dir demo_host (path \<lparr>path = ''/home/u/priv'', mode = FAKE_MODE_TMPFS\<rparr>)
   \<and> path_parent_is_mapped
        (sorted_keys
          [(''/home'', \<lparr>path = ''/home'', mode = FLATPAK_FILESYSTEM_MODE_READ_WRITE\<rparr>),
           (''/home/u/priv'', \<lparr>path = ''/home/u/priv'', mode = FAKE_MODE_TMPFS\<rparr>)])
        [(''/home'', \<lparr>path = ''/home'', mode = FLATPAK_FILESYSTEM_MODE_READ_WRITE\<rparr>),
         (''/home/u/priv'', \<lparr>path = ''/home/u/priv'', mode = FAKE_MODE_TMPFS\<rparr>)] ''/home/u/priv''
   \<and> entry_args demo_host
        (sorted_keys
          [(''/home'', \<lparr>path = ''/home'', mode = FLATPAK_FILESYSTEM_MODE_READ_WRITE\<rparr>),
           (''/home/u/priv'', \<lparr>path = ''/home/u/priv'', mode = FAKE_MODE_TMPFS\<rparr>)])
        [(''/home'', \<lparr>path = ''/home'', mode = FLATPAK_FILESYSTEM_MODE_READ_WRITE\<rparr>),
         (''/home/u/priv'', \<lparr>path = ''/home/u/priv'', mode = FAKE_MODE_TMPFS\<rparr>)]
        \<lparr>path = ''/home/u/priv'', mode = FAKE_MODE_TMPFS\<rparr>
      = [''--tmpfs'', ''/home/u/priv'']
   \<and> \<not> path_is_dir demo_host (path \<lparr>path = ''/home/u/gone'', mode = FAKE_MODE_TMPFS\<rparr>)
   \<and> entry_args demo_host
        (sorted_keys
          [(''/home'', \<lparr>path = ''/home'', mode = FLATPAK_FILESYSTEM_MODE_READ_WRITE\<rparr>),
           (''/home/u/priv'', \<lparr>path = ''/home/u/priv'', mode = FAKE_MODE_TMPFS\<rparr>)])
        [(''/home'', \<lparr>path = ''/home'', mode = FLATPAK_FILESYSTEM_MODE_READ_WRITE\<rparr>),
         (''/home/u/priv'', \<lparr>path = ''/home/u/priv'', mode = FAKE_MODE_TMPFS\<rparr>)]
        \<lparr>path = ''/home/u/gone'', mode = FAKE_MODE_TMPFS\<rparr>
      = []"
proof -
  let ?T = "[(''/home'', \<lparr>path = ''/home'', mode = FLATPAK_FILESYSTEM_MODE_READ_WRITE\<rparr>),
             (''/home/u/priv'', \<lparr>path = ''/home/u/priv'', mode = FAKE_MODE_TMPFS\<rparr>)]"
  let ?ep = "\<lparr>path = ''/home/u/priv'', mode = FAKE_MODE_TMPFS\<rparr>"
  have tmpfs: "mode ?ep = FAKE_MODE_TMPFS" by simp
  have dir: "path_is_dir demo_host (path ?ep)"
    by (simp add: path_is_dir_def demo_host_sel)
  have parent: "path_parent_is_mapped (sorted_keys ?T) ?T ''/home/u/priv''"
    by (simp add: path_parent_is_mapped_def sorted_keys_def mode_defs string_defs)
  from tmpfs_entry_follows_parent [of demo_host _ _ ?ep "sorted_keys ?T" ?T] tmpfs dir
  have "entry_args demo_host (sorted_keys ?T) ?T ?ep =
          (if path_parent_is_mapped (sorted_keys ?T) ?T (path ?ep) then [''--tmpfs'', path ?ep]
           else [''--dir'', path ?ep])"
    by blast
  with parent have shown: "entry_args demo_host (sorted_keys ?T) ?T ?ep = [''--tmpfs'', ''/home/u/priv'']"
    by simp
  let ?gone = "\<lparr>path = ''/home/u/gone'', mode = FAKE_MODE_TMPFS\<rparr>"
  have tmpfs': "mode ?gone = FAKE_MODE_TMPFS" by simp
  have no_dir: "\<not> path_is_dir demo_host (path ?gone)"
    by (simp add: path_is_dir_def demo_host_sel)
  from tmpfs_entry_follows_parent [of demo_host _ _ ?gone "sorted_keys ?T" ?T] tmpfs' no_dir
  have "entry_args demo_host (sorted_keys ?T) ?T ?gone = []"
    by blast
  with tmpfs dir parent shown no_dir show ?thesis by simp
qed

text \<open>
  The wording of C4 against the code. With \<^verbatim>\<open>/home\<close> read-write and
  \<^verbatim>\<open>/home/u/priv\<close> as tmpfs, the tmpfs entry gets \<^verbatim>\<open>--tmpfs\<close> although
  \<open>path_is_mapped\<close> is false of its path. With \<^verbatim>\<open>/home\<close> as tmpfs alone, the
  entry gets \<^verbatim>\<open>--dir\<close> although predicate B as the specification words it holds.
  Under neither reading of predicate B does it decide between the two actions.
\<close>

theorem tmpfs_entry_predicate_B_counterexample:
  "path_is_dir demo_host ''/home/u/priv''
   \<and> flatpak_exports_append_bwrap_args demo_host
        (run_requests flatpak_exports_new
           [(demo_host, AddPathExpose FLATPAK_FILESYSTEM_MODE_READ_WRITE ''/home''),
            (demo_host, AddPathTmpfs ''/home/u/priv'')]) []
      = [''--bind'', ''/home'', ''/home'', ''--tmpfs'', ''/home/u/priv'']
   \<and> \<not> path_is_mapped
        (sorted_keys (hash (run_requests flatpak_exports_new
           [(demo_host, AddPathExpose FLATPAK_FILESYSTEM_MODE_READ_WRITE ''/home''),
            (demo_host, AddPathTmpfs ''/home/u/priv'')])))
        (hash (run_requests flatpak_exports_new
           [(demo_host, AddPathExpose FLATPAK_FILESYSTEM_MODE_READ_WRITE ''/home''),
            (demo_host, AddPathTmpfs ''/home/u/priv'')])) ''/home/u/priv''
   \<and> path_is_dir demo_host ''/home''
   \<and> flatpak_exports_append_bwrap_args demo_host
        (flatpak_exports_add_path_tmpfs demo_host flatpak_exports_new ''/home'') []
      = [''--dir'', ''/home'']
   \<and> spec_predicate_B
        (hash (flatpak_exports_add_path_tmpfs demo_host flatpak_exports_new ''/home'')) ''/home''"
  unfolding home_priv_table home_tmpfs_table
  by (simp add: plan_defs path_is_mapped_def spec_predicate_B_def demo_host_sel mode_defs string_defs)

subsection \<open>Symlinks that point at each other\<close>

lemma d_table:
  "flatpak_exports_add_path_expose demo_host flatpak_exports_new FLATPAK_FILESYSTEM_MODE_READ_ONLY ''/d''
   = \<lparr>hash = [(''/d'', \<lparr>path = ''/d'', mode = FLATPAK_FILESYSTEM_MODE_READ_ONLY\<rparr>)], host_fs = 0\<rparr>"
  by (simp add: flatpak_exports_add_path_expose_def exports_path_expose.simps demo_host_sel
      string_defs expose_defs)

lemma walk_cycle:
  "visible_walk demo_host
     (sorted_keys [(''/d'', \<lparr>path = ''/d'', mode = FLATPAK_FILESYSTEM_MODE_READ_ONLY\<rparr>)])
     [(''/d'', \<lparr>path = ''/d'', mode = FLATPAK_FILESYSTEM_MODE_READ_ONLY\<rparr>)] []
     (g_strsplit (tl (flatpak_canonicalize_filename demo_host ''/d/x''))) = Follow ''/d/y''"
  "visible_walk demo_host
     (sorted_keys [(''/d'', \<lparr>path = ''/d'', mode = FLATPAK_FILESYSTEM_MODE_READ_ONLY\<rparr>)])
     [(''/d'', \<lparr>path = ''/d'', mode = FLATPAK_FILESYSTEM_MODE_READ_ONLY\<rparr>)] []
     (g_strsplit (tl (flatpak_canonicalize_filename demo_host ''/d/y''))) = Follow ''/d/x''"
  by (simp_all add: sorted_keys_def path_is_mapped_def demo_host_sel string_defs mode_defs)

lemma visible_cycle_never_returns:
  "flatpak_exports_path_is_visible demo_host
     \<lparr>hash = [(''/d'', \<lparr>path = ''/d'', mode = FLATPAK_FILESYSTEM_MODE_READ_ONLY\<rparr>)], host_fs = 0\<rparr>
     ''/d/x'' = None"
proof (rule ccontr)
  let ?T = "\<lparr>hash = [(''/d'', \<lparr>path = ''/d'', mode = FLATPAK_FILESYSTEM_MODE_READ_ONLY\<rparr>)],
            host_fs = 0\<rparr>"
  assume "flatpak_exports_path_is_visible demo_host ?T ''/d/x'' \<noteq> None"
  then obtain y where y: "flatpak_exports_path_is_visible demo_host ?T ''/d/x'' = Some y"
    by blast
  have "\<not> (demo_host = demo_host \<and> ?T = ?T \<and> (''/d/x'' = ''/d/x'' \<or> ''/d/x'' = ''/d/y''))"
  proof (rule flatpak_exports_path_is_visible.raw_induct
      [where P = "\<lambda>h e p y. \<not> (h = demo_host \<and> e = ?T \<and> (p = ''/d/x'' \<or> p = ''/d/y''))", OF _ y])
    fix f :: "host \<Rightarrow> FlatpakExports \<Rightarrow> string \<Rightarrow> bool option" and h e p r
    assume IH: "\<And>h e p y. f h e p = Some y \<Longrightarrow>
        \<not> (h = demo_host \<and> e = ?T \<and> (p = ''/d/x'' \<or> p = ''/d/y''))"
      and body: "(case visible_walk h (sorted_keys (hash e)) (hash e) []
             (g_strsplit (tl (flatpak_canonicalize_filename h p))) of
          Return b \<Rightarrow> Some b
        | Follow p2 \<Rightarrow> f h e p2) = Some r"
    show "\<not> (h = demo_host \<and> e = ?T \<and> (p = ''/d/x'' \<or> p = ''/d/y''))"
    proof
      assume cyc: "h = demo_host \<and> e = ?T \<and> (p = ''/d/x'' \<or> p = ''/d/y'')"
      then consider "p = ''/d/x''" | "p = ''/d/y''" by blast
      then show False
      proof cases
        case 1
        with cyc body have "f demo_host ?T ''/d/y'' = Some r" by (simp add: walk_cycle)
        from IH [OF this] show False by simp
      next
        case 2
        with cyc body have "f demo_host ?T ''/d/x'' = Some r" by (simp add: walk_cycle)
        from IH [OF this] show False by simp
      qed
    qed
  qed
  then show False by simp
qed

text \<open>
  C1: \<^verbatim>\<open>_exports_path_expose\<close> carries the level and gives up above 40: its model is
  a total function, and on the two symlinks of \<^verbatim>\<open>/d\<close> that point at each other it
  returns false with the table unchanged. \<^verbatim>\<open>flatpak_exports_path_is_visible\<close> has no
  level: with \<^verbatim>\<open>/d\<close> exposed read-only on that same host, the call on
  \<^verbatim>\<open>/d/x\<close> follows \<^verbatim>\<open>/d/x\<close> to \<^verbatim>\<open>/d/y\<close> and back without end and never
  returns.
\<close>

theorem visibility_of_symlink_cycle_never_returns:
  "exports_path_expose demo_host e m ''/d/x'' 0 = (False, e)
   \<and> flatpak_exports_path_is_visible demo_host
        (flatpak_exports_add_path_expose demo_host flatpak_exports_new
           FLATPAK_FILESYSTEM_MODE_READ_ONLY ''/d'')
        ''/d/x'' = None"
  by (simp add: cycle_fails d_table visible_cycle_never_returns)

subsection \<open>Canonical names and their elements\<close>

lemma clean_elements_iff:
  "clean_elements ws \<longleftrightarrow>
     (\<forall>w \<in> set ws. w \<noteq> [] \<and> w \<noteq> ''.'' \<and> w \<noteq> ''..'' \<and> CHR ''/'' \<notin> set w)"
  by (auto simp: clean_elements_def list_all_iff list_ex_iff is_slash_def)

lemma split_on_not_Nil: "split_on c s \<noteq> []"
  by (induction s) (auto split: list.splits)

lemma split_on_free: "c \<notin> set w \<Longrightarrow> split_on c w = [w]"
  by (induction w) auto

lemma split_on_append: "c \<notin> set w \<Longrightarrow> split_on c (w @ c # r) = w # split_on c r"
  by (induction w) (auto split: list.splits)

lemma split_on_pieces: "w \<in> set (split_on c s) \<Longrightarrow> c \<notin> set w"
proof (induction s arbitrary: w)
  case Nil
  then show ?case by simp
next
  case (Cons x s)
  show ?case
  proof (cases "x = c")
    case True
    with Cons show ?thesis by auto
  next
    case False
    obtain v vs where vs: "split_on c s = v # vs"
      using split_on_not_Nil [of c s] by (cases "split_on c s") auto
    with False Cons.prems have "w = x # v \<or> w \<in> set vs" by simp
    then show ?thesis
    proof
      assume "w = x # v"
      moreover have "c \<notin> set v" using Cons.IH [of v] vs by simp
      ultimately show ?thesis using False by auto
    next
      assume "w \<in> set vs"
      then show ?thesis using Cons.IH [of w] vs by simp
    qed
  qed
qed

lemma split_on_joined:
  "clean_elements ws \<Longrightarrow> CHR ''/'' \<notin> set w \<Longrightarrow>
   split_on CHR ''/'' (w @ concat (map ((#) CHR ''/'') ws)) = w # ws"
proof (induction ws arbitrary: w)
  case Nil
  then show ?case by (simp add: split_on_free)
next
  case (Cons v ws)
  then have v: "CHR ''/'' \<notin> set v" and ws: "clean_elements ws"
    by (simp_all add: clean_elements_iff)
  have "split_on CHR ''/'' (w @ CHR ''/'' # (v @ concat (map ((#) CHR ''/'') ws)))
      = w # split_on CHR ''/'' (v @ concat (map ((#) CHR ''/'') ws))"
    using Cons.prems(2) by (rule split_on_append)
  then show ?case using Cons.IH [OF ws v] by simp
qed

lemma path_elements_join: "clean_elements ws \<Longrightarrow> path_elements (join_path ws) = ws"
proof (cases ws)
  case Nil
  then show ?thesis by (simp add: path_elements_def join_path_def)
next
  case (Cons v vs)
  assume clean: "clean_elements ws"
  have "split_on CHR ''/'' ([] @ concat (map ((#) CHR ''/'') ws)) = [] # ws"
    using clean by (intro split_on_joined) simp_all
  moreover have "filter (\<lambda>w. w \<noteq> []) ws = ws"
    using clean by (simp add: clean_elements_iff filter_id_conv)
  ultimately show ?thesis using Cons by (simp add: path_elements_def join_path_def)
qed


lemma canon_fold_clean:
  "clean_elements acc \<Longrightarrow> \<forall>w \<in> set xs. CHR ''/'' \<notin> set w \<Longrightarrow>
   clean_elements (foldl canon_step acc xs)"
proof (induction xs arbitrary: acc)
  case Nil
  then show ?case by simp
next
  case (Cons x xs)
  have "clean_elements (canon_step acc x)"
    using Cons.prems by (auto simp: canon_step_def clean_elements_iff dest: in_set_butlastD)
  then show ?case using Cons by simp
qed

lemma canonical_elements:
  assumes "flatpak_canonicalize_filename h p = p"
  obtains ws where "clean_elements ws" "p = join_path ws"
proof -
  let ?full = "if g_path_is_absolute p then p else g_get_current_dir h @ ''/'' @ p"
  let ?ws = "foldl canon_step [] (split_on CHR ''/'' ?full)"
  have "clean_elements ?ws"
    by (rule canon_fold_clean) (simp_all add: clean_elements_iff split_on_pieces)
  moreover have "p = join_path ?ws"
    using assms by (simp add: flatpak_canonicalize_filename_def Let_def)
  ultimately show thesis by (rule that)
qed



subsection \<open>The walk of the visibility check\<close>
















subsection \<open>The keys of a table are canonical\<close>



lemma canon_fold_plain: "clean_elements ws \<Longrightarrow> foldl canon_step acc ws = acc @ ws"
  by (induction ws arbitrary: acc) (simp_all add: canon_step_def clean_elements_iff)

lemma join_path_absolute: "g_path_is_absolute (join_path ws)"
  by (cases ws) (simp_all add: join_path_def g_path_is_absolute_def is_slash_def)

lemma canonicalize_join:
  assumes "clean_elements ws"
  shows "flatpak_canonicalize_filename h (join_path ws) = join_path ws"
proof (cases ws)
  case Nil
  then show ?thesis by (simp add: string_defs)
next
  case (Cons v vs)
  have "split_on CHR ''/'' ([] @ concat (map ((#) CHR ''/'') ws)) = [] # ws"
    using assms by (intro split_on_joined) simp_all
  then have "split_on CHR ''/'' (join_path ws) = [] # ws"
    using Cons by (simp add: join_path_def)
  then show ?thesis
    using assms
    by (simp add: flatpak_canonicalize_filename_def join_path_absolute canon_fold_plain canon_step_def)
qed



lemma canonical_name_iff: "canonical_name k \<longleftrightarrow> (\<exists>ws. clean_elements ws \<and> k = join_path ws)"
  by (auto simp: canonical_name_def path_elements_join)

lemma canonical_name_canonicalize:
  "canonical_name k \<longleftrightarrow> flatpak_canonicalize_filename h k = k"
proof
  assume "canonical_name k"
  then show "flatpak_canonicalize_filename h k = k"
    by (auto simp: canonical_name_iff canonicalize_join)
next
  assume "flatpak_canonicalize_filename h k = k"
  then obtain ws where "clean_elements ws" "k = join_path ws"
    by (rule canonical_elements)
  then show "canonical_name k" by (auto simp: canonical_name_iff)
qed








subsection \<open>A symlink to a directory, in general\<close>





















subsection \<open>Below a tmpfs entry\<close>




subsection \<open>Visibility of what the table records\<close>













end
